theory Spec2Isabelle
  imports Complex_Main "HOL-Library.Product_Lexorder"
begin

section \<open>Offline analysis of residual-gas-analyzer scans\<close>

text \<open>
  A shallow embedding of \<^verbatim>\<open>offline-analysis/offline_analysis.py\<close> (class
  \<^verbatim>\<open>OfflineAnalysis\<close>): ingestion of the scan files of a directory, run labelling,
  interpolation onto the mass grid, the extraction of pressure series and the removal
  of long gaps from a time axis.

  Conventions of the model.
  \<^item> A Python exception is a value of \<open>error\<close>; a function that may raise returns
    \<open>error + 'a\<close>, with \<open>Inl\<close> the exception.
  \<^item> Python and NumPy floats are real numbers. The one special value the program itself
    produces, \<^verbatim>\<open>np.nan\<close>, is the constructor \<open>NaN\<close> of \<open>float64\<close>. Masses (raw,
    grid and target) and elapsed hours are finite, hence \<open>real\<close>; pressures are
    \<open>float64\<close>. Rounding to double precision is modelled where the results depend on
    it: in the default mass grid and in the arithmetic of gap compression. Elsewhere the
    arithmetic is exact; overflow and infinities are not modelled.
  \<^item> A \<^verbatim>\<open>datetime\<close> is the tuple (year, month, day, hour, minute, second) under the
    lexicographic order, which is the order Python compares naive datetimes by.
  \<^item> Plotting is outside the model; of a plotting method only the series it computes
    is kept.
\<close>

subsection \<open>Errors, floats, timestamps\<close>

datatype error = ValueError | IndexError | ZeroDivisionError | AttributeError

datatype float64 = NaN | Val real

type_synonym datetime = "nat \<times> nat \<times> nat \<times> nat \<times> nat \<times> nat"

text \<open>Sequencing of computations that may raise.\<close>

fun ebind :: "error + 'a \<Rightarrow> ('a \<Rightarrow> error + 'b) \<Rightarrow> error + 'b" where
  "ebind (Inl e) f = Inl e"
| "ebind (Inr x) f = f x"

text \<open>
  Indexing a sequence at a non-negative position; Python raises IndexError past the end.
  Positions are natural numbers: the positions the methods use come from \<^verbatim>\<open>range\<close>,
  \<^verbatim>\<open>enumerate\<close>, \<^verbatim>\<open>argmin\<close> and the peak search, and are never negative.
\<close>

definition getitem :: "'a list \<Rightarrow> nat \<Rightarrow> error + 'a" where
  "getitem xs i = (if i < length xs then Inr (xs ! i) else Inl IndexError)"

text \<open>
  Division of two pressures. NumPy answers a zero denominator with an infinity and a
  warning; the model takes the stricter reading of plain Python floats, where it raises,
  so that a guard against a zero denominator is visible in the result.
\<close>

fun fdiv :: "float64 \<Rightarrow> float64 \<Rightarrow> error + float64" where
  "fdiv (Val a) (Val b) = (if b = 0 then Inl ZeroDivisionError else Inr (Val (a / b)))"
| "fdiv NaN (Val b) = (if b = 0 then Inl ZeroDivisionError else Inr NaN)"
| "fdiv p NaN = Inr NaN"

subsection \<open>Rounding to double precision\<close>

text \<open>
  \<open>rnd x\<close> is the double nearest to the real \<open>x\<close>, ties going to the even
  significand: when \<open>|x|\<close> lies between \<open>2 ^ e\<close> and \<open>2 ^ (e + 1)\<close>, the nearest
  multiple of \<open>2 ^ (e - 52)\<close>.
  \<open>expo n a\<close> finds the exponent \<open>e\<close> of a positive \<open>a\<close> by doubling or halving at
  most \<open>n\<close> times; 2200 steps cover the exponents of all doubles. Subnormal numbers and
  overflow are not modelled. A float operation of the program is the exact operation
  followed by \<open>rnd\<close>.
\<close>

fun expo :: "nat \<Rightarrow> real \<Rightarrow> int" where
  "expo 0 a = 0"
| "expo (Suc n) a =
     (if a < 1 then expo n (2 * a) - 1 else if 2 \<le> a then expo n (a / 2) + 1 else 0)"

definition round_half_even :: "real \<Rightarrow> int" where
  "round_half_even q =
     (let f = \<lfloor>q\<rfloor>; r = q - of_int f
      in if r < 1 / 2 then f else if 1 / 2 < r then f + 1 else if even f then f else f + 1)"

definition rnd :: "real \<Rightarrow> real" where
  "rnd x =
     (if x = 0 then 0
      else let e = expo 2200 (abs x)
           in if e \<le> 52
              then of_int (round_half_even (x * 2 ^ nat (52 - e))) / 2 ^ nat (52 - e)
              else of_int (round_half_even (x / 2 ^ nat (e - 52))) * 2 ^ nat (e - 52))"

subsection \<open>Strings: \<^verbatim>\<open>str.split\<close>, \<^verbatim>\<open>str.join\<close>, \<^verbatim>\<open>str.endswith\<close>\<close>

fun str_split :: "char \<Rightarrow> string \<Rightarrow> string list" where
  "str_split c [] = [[]]"
| "str_split c (x # xs) =
     (if x = c then [] # str_split c xs
      else (case str_split c xs of [] \<Rightarrow> [[x]] | w # ws \<Rightarrow> (x # w) # ws))"

fun str_join :: "string \<Rightarrow> string list \<Rightarrow> string" where
  "str_join sep [] = []"
| "str_join sep [w] = w"
| "str_join sep (w # v # ws) = w @ sep @ str_join sep (v # ws)"

definition endswith :: "string \<Rightarrow> string \<Rightarrow> bool" where
  "endswith s suf = (length suf \<le> length s \<and> drop (length s - length suf) s = suf)"

subsection \<open>\<^verbatim>\<open>datetime.strptime(time_str, '%Y%m%d_%H%M%S')\<close>\<close>

text \<open>
  The standard library turns the format into the regular expression
  \<^verbatim>\<open>(\d\d\d\d)(1[0-2]|0[1-9]|[1-9])(3[0-1]|[1-2]\d|0[1-9]|[1-9]| [1-9])_(2[0-3]|[0-1]\d|\d)([0-5]\d|\d)(6[0-1]|[0-5]\d|\d)\<close>,
  matches it at the start of the string, raises ValueError when there is no match or
  when text remains after the match, and then builds the datetime, which raises
  ValueError for a date or time that does not exist. Each field parser below returns
  the ways its group can match a prefix, in the order the regular expression tries
  them; the first complete match is the one Python takes. File names are ASCII.
\<close>

definition is_digit :: "char \<Rightarrow> bool" where
  "is_digit c = (c \<in> set ''0123456789'')"

definition digit_val :: "char \<Rightarrow> nat" where
  "digit_val c = of_char c - 48"

definition two_digits :: "nat \<Rightarrow> nat \<Rightarrow> string \<Rightarrow> (nat \<times> string) list" where
  "two_digits lo hi s =
     (case s of
        a # b # rest \<Rightarrow>
          (if is_digit a \<and> is_digit b \<and> lo \<le> 10 * digit_val a + digit_val b
                \<and> 10 * digit_val a + digit_val b \<le> hi
           then [(10 * digit_val a + digit_val b, rest)] else [])
      | _ \<Rightarrow> [])"

definition one_digit :: "nat \<Rightarrow> string \<Rightarrow> (nat \<times> string) list" where
  "one_digit lo s =
     (case s of
        a # rest \<Rightarrow> (if is_digit a \<and> lo \<le> digit_val a then [(digit_val a, rest)] else [])
      | [] \<Rightarrow> [])"

definition field_Y :: "string \<Rightarrow> (nat \<times> string) list" where
  "field_Y s =
     (case s of
        a # b # c # d # rest \<Rightarrow>
          (if is_digit a \<and> is_digit b \<and> is_digit c \<and> is_digit d
           then [(1000 * digit_val a + 100 * digit_val b + 10 * digit_val c + digit_val d, rest)]
           else [])
      | _ \<Rightarrow> [])"

definition field_m :: "string \<Rightarrow> (nat \<times> string) list" where
  "field_m s = two_digits 1 12 s @ one_digit 1 s"

definition field_d :: "string \<Rightarrow> (nat \<times> string) list" where
  "field_d s = two_digits 1 31 s @ one_digit 1 s
     @ (case s of a # rest \<Rightarrow> (if a = CHR '' '' then one_digit 1 rest else []) | [] \<Rightarrow> [])"

definition field_H :: "string \<Rightarrow> (nat \<times> string) list" where
  "field_H s = two_digits 0 23 s @ one_digit 0 s"

definition field_M :: "string \<Rightarrow> (nat \<times> string) list" where
  "field_M s = two_digits 0 59 s @ one_digit 0 s"

definition field_S :: "string \<Rightarrow> (nat \<times> string) list" where
  "field_S s = two_digits 0 61 s @ one_digit 0 s"

definition literal :: "char \<Rightarrow> string \<Rightarrow> string list" where
  "literal c s = (case s of a # rest \<Rightarrow> (if a = c then [rest] else []) | [] \<Rightarrow> [])"

definition matches :: "string \<Rightarrow> (datetime \<times> string) list" where
  "matches s =
     concat (map (\<lambda>(Y, s1).
     concat (map (\<lambda>(m, s2).
     concat (map (\<lambda>(d, s3).
     concat (map (\<lambda>s4.
     concat (map (\<lambda>(H, s5).
     concat (map (\<lambda>(M, s6).
             map (\<lambda>(S, s7). ((Y, m, d, H, M, S), s7)) (field_S s6))
       (field_M s5))) (field_H s4))) (literal CHR ''_'' s3))) (field_d s2)))
       (field_m s1))) (field_Y s))"

definition is_leap :: "nat \<Rightarrow> bool" where
  "is_leap y = (y mod 4 = 0 \<and> (y mod 100 \<noteq> 0 \<or> y mod 400 = 0))"

definition days_in_month :: "nat \<Rightarrow> nat \<Rightarrow> nat" where
  "days_in_month y m =
     (if m = 2 then (if is_leap y then 29 else 28)
      else if m = 4 \<or> m = 6 \<or> m = 9 \<or> m = 11 then 30 else 31)"

definition mk_datetime :: "datetime \<Rightarrow> error + datetime" where
  "mk_datetime t =
     (case t of (Y, m, d, H, M, S) \<Rightarrow>
        if 1 \<le> Y \<and> Y \<le> 9999 \<and> 1 \<le> m \<and> m \<le> 12 \<and> 1 \<le> d \<and> d \<le> days_in_month Y m
             \<and> H \<le> 23 \<and> M \<le> 59 \<and> S \<le> 59
        then Inr t else Inl ValueError)"

definition strptime :: "string \<Rightarrow> error + datetime" where
  "strptime s =
     (case matches s of
        [] \<Rightarrow> Inl ValueError
      | (t, rest) # _ \<Rightarrow> (if rest = [] then mk_datetime t else Inl ValueError))"

subsection \<open>The analysis object\<close>

text \<open>
  \<^verbatim>\<open>run_intervals\<close> is a dictionary with the two keys \<^verbatim>\<open>"control_run"\<close> and
  \<^verbatim>\<open>"xenon_run"\<close>, each holding the pair [start, end].

  A file of the directory is its name and its data lines (the header line, which
  \<^verbatim>\<open>skiprows=1\<close> drops, is left out): each line is the list of its comma-separated
  fields, a field being the number it reads as, or \<open>None\<close> when it does not read as
  a number. \<open>directory\<close> lists the files in the order \<^verbatim>\<open>os.listdir\<close> returns them.
  The field \<^verbatim>\<open>times\<close> is named \<open>times_seq\<close>; the field \<^verbatim>\<open>data\<close>, which no
  method reads or writes after \<^verbatim>\<open>__init__\<close>, is left out.

  \<^verbatim>\<open>interpolated_data\<close> is a Python list after \<^verbatim>\<open>__init__\<close> and a NumPy array after
  \<^verbatim>\<open>load_data\<close> has converted it; \<open>interpolated_data_is_array\<close> tells which. The
  rows are the same in both cases, but only a list has the method \<^verbatim>\<open>append\<close>.
\<close>

record run_intervals =
  control_run :: "datetime \<times> datetime"
  xenon_run :: "datetime \<times> datetime"

type_synonym dat_file = "string \<times> real option list list"

record offline_analysis =
  directory :: "dat_file list"
  times_seq :: "datetime list"
  labels :: "string option list"
  masses :: "real list"
  interpolated_data :: "float64 list list"
  interpolated_data_is_array :: bool
  run_intervals :: run_intervals

definition default_run_intervals :: run_intervals where
  "default_run_intervals =
     \<lparr> control_run = ((2024, 9, 11, 16, 46, 0), (2024, 9, 16, 9, 44, 0)),
       xenon_run = ((2024, 9, 16, 11, 21, 0), (2024, 9, 26, 11, 0, 0)) \<rparr>"

text \<open>\<^verbatim>\<open>__init__\<close>\<close>

definition init :: "dat_file list \<Rightarrow> offline_analysis" where
  "init dir =
     \<lparr> directory = dir, times_seq = [], labels = [], masses = [], interpolated_data = [],
       interpolated_data_is_array = False, run_intervals = default_run_intervals \<rparr>"

subsection \<open>\<^verbatim>\<open>_assign_run_label\<close>\<close>

definition assign_run_label :: "offline_analysis \<Rightarrow> datetime \<Rightarrow> string option" where
  "assign_run_label self timestamp =
     (if fst (control_run (run_intervals self)) \<le> timestamp
           \<and> timestamp \<le> snd (control_run (run_intervals self))
      then Some ''control_run''
      else if fst (xenon_run (run_intervals self)) \<le> timestamp
           \<and> timestamp \<le> snd (xenon_run (run_intervals self))
      then Some ''xenon_run''
      else None)"

subsection \<open>Reading a file: \<^verbatim>\<open>np.loadtxt\<close> and the two columns\<close>

text \<open>
  \<^verbatim>\<open>np.loadtxt(path, delimiter=',', skiprows=1)\<close> raises ValueError for a field that
  is not a number and for lines with different numbers of fields. Its result is
  squeezed: with fewer than two lines, or fewer than two fields per line, the array has
  fewer than two dimensions and \<^verbatim>\<open>file_data[:, 0]\<close> raises IndexError. The table
  entries are finite numbers.
\<close>

definition loadtxt :: "real option list list \<Rightarrow> error + real list list" where
  "loadtxt rows =
     (if (\<exists>r \<in> set rows. None \<in> set r) then Inl ValueError
      else if (\<exists>r \<in> set rows. length r \<noteq> length (hd rows)) then Inl ValueError
      else Inr (map (map the) rows))"

definition column :: "real list list \<Rightarrow> nat \<Rightarrow> error + real list" where
  "column file_data j =
     (if length file_data < 2 \<or> length (hd file_data) < 2 then Inl IndexError
      else if length (hd file_data) \<le> j then Inl IndexError
      else Inr (map (\<lambda>r. r ! j) file_data))"

subsection \<open>\<^verbatim>\<open>interp1d(file_masses, file_pressures, bounds_error=False, fill_value=np.nan)\<close>\<close>

text \<open>
  Modelled from the spec: \<^verbatim>\<open>scipy.interpolate.interp1d\<close> is a library function
  whose code is not part of the repository. The spec's Interpolator contract is:
  entry \<open>i\<close> of the result is the linearly-interpolated pressure at \<open>MassGrid[i]\<close>
  using the raw masses as the interpolation domain; for any grid point outside
  \<open>[min(raw masses), max(raw masses)]\<close> the entry is the missing-value sentinel (no
  extrapolation). As the library does when \<^verbatim>\<open>assume_sorted\<close> is left at its default,
  the raw points are first put in order of mass. \<open>linear_interp\<close> walks the ordered
  points to the first segment that reaches the grid point and evaluates the line through
  its two ends. What the library answers for repeated raw masses is left open by the
  spec and by this model.
\<close>

fun linear_interp :: "(real \<times> real) list \<Rightarrow> real \<Rightarrow> real" where
  "linear_interp [] g = 0"
| "linear_interp [(x0, y0)] g = y0"
| "linear_interp ((x0, y0) # (x1, y1) # rest) g =
     (if g \<le> x1 then y0 + (g - x0) * ((y1 - y0) / (x1 - x0))
      else linear_interp ((x1, y1) # rest) g)"

definition interp1d :: "real list \<Rightarrow> real list \<Rightarrow> real \<Rightarrow> float64" where
  "interp1d xs ys g =
     (if xs = [] \<or> g < Min (set xs) \<or> Max (set xs) < g then NaN
      else Val (linear_interp (sort_key fst (zip xs ys)) g))"

subsection \<open>\<^verbatim>\<open>load_data\<close>\<close>

text \<open>
  The default grid is \<^verbatim>\<open>np.arange(1, 150 + 0.05, 0.05)\<close>. NumPy takes the length
  \<open>ceil((stop - start) / step)\<close>, which is 2981 here, computes the first two values
  \<open>start\<close> and \<open>start + step\<close>, and fills position \<open>k\<close> with
  \<open>start + k * delta\<close>, where \<open>delta\<close> is the difference of the first two values; all
  of it in double precision. So \<open>delta\<close> is a little above 0.05 and the last grid mass
  a little above 150.
\<close>

definition arange_delta :: real where
  "arange_delta = rnd (rnd (1 + rnd (5 / 100)) - 1)"

definition default_mass_grid :: "real list" where
  "default_mass_grid = map (\<lambda>k. rnd (1 + rnd (real k * arange_delta))) [0..<2981]"

text \<open>
  The body of the loop over the files, for one file: the timestamp from the name, the
  label, the table, the two columns, the interpolation, and the two appends. The result
  is the triple appended to \<^verbatim>\<open>time_and_data\<close>. The last statement,
  \<^verbatim>\<open>self.interpolated_data.append(interpolated_pressures)\<close>, raises AttributeError
  when \<^verbatim>\<open>interpolated_data\<close> is a NumPy array, that is, on an object that has been
  loaded before. On a list it adds a row; the rows added are not tracked, since the
  method replaces the whole field when the loop is over.
\<close>

definition time_str_of :: "string \<Rightarrow> string" where
  "time_str_of file = hd (str_split CHR ''.'' (str_join ''_'' (drop 2 (str_split CHR ''_'' file))))"

definition process_file ::
  "offline_analysis \<Rightarrow> real list \<Rightarrow> dat_file \<Rightarrow> error + (datetime \<times> float64 list \<times> string option)"
where
  "process_file self target_mass_grid file =
     (let time_str = time_str_of (fst file)
      in ebind (strptime time_str) (\<lambda>timestamp.
         let label = assign_run_label self timestamp
         in ebind (loadtxt (snd file)) (\<lambda>file_data.
            ebind (column file_data 0) (\<lambda>file_masses.
            ebind (column file_data 1) (\<lambda>file_pressures.
              let interpolated_pressures = map (interp1d file_masses file_pressures) target_mass_grid
              in if interpolated_data_is_array self then Inl AttributeError
                 else Inr (timestamp, interpolated_pressures, label))))))"

fun ingest ::
  "offline_analysis \<Rightarrow> real list \<Rightarrow> dat_file list \<Rightarrow> (datetime \<times> float64 list \<times> string option) list
     \<Rightarrow> error + (datetime \<times> float64 list \<times> string option) list"
where
  "ingest self target_mass_grid [] time_and_data = Inr time_and_data"
| "ingest self target_mass_grid (file # files) time_and_data =
     (case process_file self target_mass_grid file of
        Inl e \<Rightarrow> Inl e
      | Inr r \<Rightarrow> ingest self target_mass_grid files (time_and_data @ [r]))"

text \<open>
  The files taken are those whose name ends in \<^verbatim>\<open>.dat\<close>. The sort is Python's
  stable \<^verbatim>\<open>list.sort\<close> on the timestamp. With no file at all,
  \<^verbatim>\<open>zip(*time_and_data)\<close> is empty and unpacking it into three names raises
  ValueError. After the unpacking, \<^verbatim>\<open>np.array\<close> turns the rows into an array. An
  exception leaves the method at once; what the object holds at that moment is not kept
  by the model.
\<close>

definition data_files :: "offline_analysis \<Rightarrow> dat_file list" where
  "data_files self = filter (\<lambda>f. endswith (fst f) ''.dat'') (directory self)"

definition grid_of :: "real list option \<Rightarrow> real list" where
  "grid_of target_mass_grid =
     (case target_mass_grid of None \<Rightarrow> default_mass_grid | Some g \<Rightarrow> g)"

definition load_data :: "offline_analysis \<Rightarrow> real list option \<Rightarrow> error + offline_analysis" where
  "load_data self target_mass_grid =
     (let grid = grid_of target_mass_grid
      in ebind (ingest self grid (data_files self) []) (\<lambda>time_and_data.
         let sorted_data = sort_key fst time_and_data
         in if sorted_data = [] then Inl ValueError
            else Inr (self \<lparr> masses := grid,
                              times_seq := map fst sorted_data,
                              interpolated_data := map (\<lambda>x. fst (snd x)) sorted_data,
                              labels := map (\<lambda>x. snd (snd x)) sorted_data,
                              interpolated_data_is_array := True \<rparr>)))"

text \<open>
  The scans of a loaded object: \<^verbatim>\<open>times\<close>, \<^verbatim>\<open>interpolated_data\<close> and
  \<^verbatim>\<open>labels\<close> read side by side.
\<close>

definition scans :: "offline_analysis \<Rightarrow> (datetime \<times> float64 list \<times> string option) list" where
  "scans self = zip (times_seq self) (zip (interpolated_data self) (labels self))"

subsection \<open>\<^verbatim>\<open>np.argmin\<close> and indexing with NumPy arrays\<close>

text \<open>
  \<^verbatim>\<open>argmin\<close> returns the position of the first occurrence of the least value and raises
  ValueError on an empty array. The loop keeps the least value seen and its position,
  and replaces them only by a strictly smaller value.
\<close>

fun argmin_loop :: "real list \<Rightarrow> nat \<Rightarrow> real \<Rightarrow> nat \<Rightarrow> nat" where
  "argmin_loop [] i mv mi = mi"
| "argmin_loop (x # xs) i mv mi =
     (if x < mv then argmin_loop xs (Suc i) x i else argmin_loop xs (Suc i) mv mi)"

definition argmin :: "real list \<Rightarrow> error + nat" where
  "argmin xs = (case xs of [] \<Rightarrow> Inl ValueError | x # rest \<Rightarrow> Inr (argmin_loop rest 1 x 0))"

text \<open>\<^verbatim>\<open>a[mask]\<close> for a boolean mask of the length of \<open>a\<close>, and \<^verbatim>\<open>a[idxs]\<close> for an array of positions.\<close>

definition select :: "bool list \<Rightarrow> 'a list \<Rightarrow> 'a list" where
  "select msk xs = map snd (filter fst (zip msk xs))"

definition take_at :: "'a list \<Rightarrow> nat list \<Rightarrow> error + 'a list" where
  "take_at xs idxs =
     (if (\<forall>k \<in> set idxs. k < length xs) then Inr (map (\<lambda>k. xs ! k) idxs) else Inl IndexError)"

subsection \<open>\<^verbatim>\<open>get_mass_evolution\<close>\<close>

definition mass_exclusion :: real where
  "mass_exclusion = 5 / 10"

fun mass_evolution_loop ::
  "offline_analysis \<Rightarrow> real \<Rightarrow> (nat \<times> float64 list) list \<Rightarrow> float64 list \<times> datetime list
     \<Rightarrow> error + (float64 list \<times> datetime list)"
where
  "mass_evolution_loop self mass [] (ps, ts) = Inr (ps, ts)"
| "mass_evolution_loop self mass ((i, pressures) # rest) (ps, ts) =
     (case argmin (map (\<lambda>m. abs (m - mass)) (masses self)) of
        Inl e \<Rightarrow> Inl e
      | Inr m_idx \<Rightarrow>
          (let m_returned = masses self ! m_idx
           in if abs (m_returned - mass) > mass_exclusion
              then mass_evolution_loop self mass rest (ps, ts)
              else (case getitem pressures m_idx of
                      Inl e \<Rightarrow> Inl e
                    | Inr p \<Rightarrow>
                        (case getitem (times_seq self) i of
                           Inl e \<Rightarrow> Inl e
                         | Inr t \<Rightarrow> mass_evolution_loop self mass rest (ps @ [p], ts @ [t])))))"

definition get_mass_evolution ::
  "offline_analysis \<Rightarrow> real \<Rightarrow> error + (float64 list \<times> datetime list)"
where
  "get_mass_evolution self mass =
     mass_evolution_loop self mass (enumerate 0 (interpolated_data self)) ([], [])"

subsection \<open>\<^verbatim>\<open>get_peakfound_pressure\<close>\<close>

text \<open>
  \<^verbatim>\<open>scipy.ndimage.gaussian_filter\<close> and \<^verbatim>\<open>scipy.signal.find_peaks\<close> are library
  functions; the method is modelled for any pair of them, passed as \<open>lib\<close>. The
  boolean array \<^verbatim>\<open>mask\<close> is named \<open>msk\<close>. The
  arguments the method gives them are kept: \<open>sigma = 2\<close> for the filter,
  \<open>distance = 2\<close> and \<open>height = 5e-12\<close> for the peak search.
\<close>

record scipy =
  gaussian_filter :: "float64 list \<Rightarrow> real \<Rightarrow> float64 list"
  find_peaks :: "float64 list \<Rightarrow> nat \<Rightarrow> real \<Rightarrow> nat list"

definition window_mask :: "real list \<Rightarrow> real \<Rightarrow> real \<Rightarrow> bool list" where
  "window_mask ms mass mass_window =
     map (\<lambda>m. m \<ge> mass - mass_window / 2 \<and> m \<le> mass + mass_window / 2) ms"

definition get_peakfound_pressure ::
  "scipy \<Rightarrow> offline_analysis \<Rightarrow> real \<Rightarrow> nat \<Rightarrow> real \<Rightarrow> error + (float64 \<times> real) option"
where
  "get_peakfound_pressure lib self mass scan_index window =
     ebind (getitem (interpolated_data self) scan_index) (\<lambda>pressures.
       let msk = window_mask (masses self) mass window
       in if True \<notin> set msk then Inr None
          else if length pressures \<noteq> length msk then Inl IndexError
          else
            let masses_window = select msk (masses self);
                pressures_window = select msk pressures;
                smoothed_pressures = gaussian_filter lib pressures_window 2;
                peaks = find_peaks lib smoothed_pressures 2 (5 / 10 ^ 12)
            in if length peaks = 0
               then
                 ebind (argmin (map (\<lambda>m. abs (m - mass)) masses_window)) (\<lambda>idx.
                 ebind (getitem pressures_window idx) (\<lambda>p.
                 ebind (getitem masses_window idx) (\<lambda>m. Inr (Some (p, m)))))
               else
                 ebind (take_at masses_window peaks) (\<lambda>peak_masses.
                 ebind (argmin (map (\<lambda>m. abs (m - mass)) peak_masses)) (\<lambda>j.
                 ebind (getitem peaks j) (\<lambda>peak_idx.
                 ebind (getitem smoothed_pressures peak_idx) (\<lambda>p.
                 ebind (getitem masses_window peak_idx) (\<lambda>m. Inr (Some (p, m))))))))"

subsection \<open>The series of \<^verbatim>\<open>plot_mass_evolution_peakfound_relative\<close>\<close>

text \<open>
  The method builds the two lists \<^verbatim>\<open>pressures_ratio\<close> and \<^verbatim>\<open>times\<close> (here
  \<open>times_out\<close>) and then plots them; the model returns the two lists.
\<close>

fun ratio_loop ::
  "scipy \<Rightarrow> offline_analysis \<Rightarrow> real \<Rightarrow> real \<Rightarrow> real \<Rightarrow> nat list \<Rightarrow> float64 list \<times> datetime list
     \<Rightarrow> error + (float64 list \<times> datetime list)"
where
  "ratio_loop lib self mass mass_rel window [] (pressures_ratio, times_out) =
     Inr (pressures_ratio, times_out)"
| "ratio_loop lib self mass mass_rel window (i # rest) (pressures_ratio, times_out) =
     (case get_peakfound_pressure lib self mass i window of
        Inl e \<Rightarrow> Inl e
      | Inr r \<Rightarrow>
          (case get_peakfound_pressure lib self mass_rel i window of
             Inl e \<Rightarrow> Inl e
           | Inr r_rel \<Rightarrow>
               (case (r, r_rel) of
                  (Some (p, _), Some (p_rel, _)) \<Rightarrow>
                    if p_rel \<noteq> Val 0
                    then (case fdiv p p_rel of
                            Inl e \<Rightarrow> Inl e
                          | Inr q \<Rightarrow>
                              ratio_loop lib self mass mass_rel window rest
                                (pressures_ratio @ [q], times_out @ [times_seq self ! i]))
                    else ratio_loop lib self mass mass_rel window rest (pressures_ratio, times_out)
                | _ \<Rightarrow> ratio_loop lib self mass mass_rel window rest (pressures_ratio, times_out))))"

definition mass_evolution_peakfound_relative ::
  "scipy \<Rightarrow> offline_analysis \<Rightarrow> real \<Rightarrow> real \<Rightarrow> real \<Rightarrow> error + (float64 list \<times> datetime list)"
where
  "mass_evolution_peakfound_relative lib self mass mass_rel window =
     ratio_loop lib self mass mass_rel window [0..<length (times_seq self)] ([], [])"

subsection \<open>\<^verbatim>\<open>_handle_large_gaps\<close>\<close>

text \<open>
  The loop runs over the positions of \<open>ts\<close> and reads \<open>ts[i]\<close> and \<open>ps[i]\<close>; here it
  runs over the two lists side by side, and a \<open>ps\<close> that ends before \<open>ts\<close> is the
  IndexError of \<open>ps[i]\<close>. \<open>last_time = ts[0]\<close> raises IndexError on an empty \<open>ts\<close>.
  Of the drawing on \<open>ax\<close>, the positions of the vertical lines are kept, in order, as
  the third component of the result.

  The elapsed hours are Python floats. The loop is written once for a rounding function
  \<open>r\<close>, applied to the result of each of its three operations: the difference
  \<open>ts[i] - last_time\<close>, the sum \<open>time_shift + gap_duration\<close> and the difference
  \<open>ts[i] - time_shift\<close>. The method of the program is the loop with \<open>rnd\<close>, on
  times that are doubles. The loop with the identity for \<open>r\<close> is the same loop in exact
  arithmetic.
\<close>

fun gaps_loop ::
  "(real \<Rightarrow> real) \<Rightarrow> bool \<Rightarrow> real list \<Rightarrow> float64 list \<Rightarrow> real \<Rightarrow> real \<Rightarrow> real list
     \<Rightarrow> float64 list \<Rightarrow> real list \<Rightarrow> error + (real list \<times> float64 list \<times> real list)"
where
  "gaps_loop r label_gap [] ps last_time time_shift new_ts new_ps marks =
     Inr (new_ts, new_ps, marks)"
| "gaps_loop r label_gap (t # ts) [] last_time time_shift new_ts new_ps marks = Inl IndexError"
| "gaps_loop r label_gap (t # ts) (p # ps) last_time time_shift new_ts new_ps marks =
     (let gap = (r (t - last_time) > 24);
          shifted = (if gap then r (time_shift + r (t - last_time)) else time_shift);
          marked = (if gap \<and> label_gap then marks @ [last_time] else marks)
      in gaps_loop r label_gap ts ps t shifted (new_ts @ [r (t - shifted)]) (new_ps @ [p]) marked)"

definition handle_large_gaps_with ::
  "(real \<Rightarrow> real) \<Rightarrow> real list \<Rightarrow> float64 list \<Rightarrow> bool
     \<Rightarrow> error + (real list \<times> float64 list \<times> real list)"
where
  "handle_large_gaps_with r ts ps label_gap =
     (case ts of
        [] \<Rightarrow> Inl IndexError
      | t0 # _ \<Rightarrow> gaps_loop r label_gap ts ps t0 0 [] [] [])"

definition handle_large_gaps ::
  "real list \<Rightarrow> float64 list \<Rightarrow> bool \<Rightarrow> error + (real list \<times> float64 list \<times> real list)"
where
  "handle_large_gaps ts ps label_gap = handle_large_gaps_with rnd ts ps label_gap"

subsection \<open>Example inputs\<close>

text \<open>
  A directory of three entries, listed out of time order: two scan files with two data
  lines each, and a file that is not a scan file. The two raw scans cover the masses
  1 to 3 and 2 to 3.
\<close>

definition example_directory :: "dat_file list" where
  "example_directory =
     [(''analog_scan_20240920_090000.dat'', [[Some 2, Some 10], [Some 3, Some 20]]),
      (''notes.txt'', []),
      (''analog_scan_20240911_170000.dat'', [[Some 1, Some 4], [Some 3, Some 8]])]"

text \<open>
  A directory where two scan files carry the same timestamp; the one with the pressures
  4 and 8 is listed before the one with 5 and 7, and both after a later scan.
\<close>

definition ties_directory :: "dat_file list" where
  "ties_directory =
     [(''analog_scan_20240920_090000.dat'', [[Some 1, Some 10], [Some 2, Some 20]]),
      (''first_scan_20240911_170000.dat'', [[Some 1, Some 4], [Some 2, Some 8]]),
      (''second_scan_20240911_170000.dat'', [[Some 1, Some 5], [Some 2, Some 7]])]"

text \<open>What \<^verbatim>\<open>load_data\<close> makes of the two directories, on the grids 1..4 and 1..2.\<close>

definition example_loaded :: offline_analysis where
  "example_loaded =
     \<lparr> directory = example_directory,
       times_seq = [(2024, 9, 11, 17, 0, 0), (2024, 9, 20, 9, 0, 0)],
       labels = [Some ''control_run'', Some ''xenon_run''],
       masses = [1, 2, 3, 4],
       interpolated_data = [[Val 4, Val 6, Val 8, NaN], [NaN, Val 10, Val 20, NaN]],
       interpolated_data_is_array = True,
       run_intervals = default_run_intervals \<rparr>"

definition ties_loaded :: offline_analysis where
  "ties_loaded =
     \<lparr> directory = ties_directory,
       times_seq = [(2024, 9, 11, 17, 0, 0), (2024, 9, 11, 17, 0, 0), (2024, 9, 20, 9, 0, 0)],
       labels = [Some ''control_run'', Some ''control_run'', Some ''xenon_run''],
       masses = [1, 2],
       interpolated_data = [[Val 4, Val 8], [Val 5, Val 7], [Val 10, Val 20]],
       interpolated_data_is_array = True,
       run_intervals = default_run_intervals \<rparr>"

subsection \<open>Loaded objects\<close>

text \<open>
  What \<^verbatim>\<open>load_data\<close> establishes and the extraction methods rely on: one row of
  \<^verbatim>\<open>interpolated_data\<close> and one label per timestamp, and every row as long as the
  grid. \<open>deviations\<close> is \<^verbatim>\<open>np.abs(self.masses - mass)\<close>.
\<close>

definition well_formed :: "offline_analysis \<Rightarrow> bool" where
  "well_formed self \<longleftrightarrow>
     length (interpolated_data self) = length (times_seq self)
     \<and> length (labels self) = length (times_seq self)
     \<and> (\<forall>row \<in> set (interpolated_data self). length row = length (masses self))"

definition deviations :: "offline_analysis \<Rightarrow> real \<Rightarrow> real list" where
  "deviations self mass = map (\<lambda>m. abs (m - mass)) (masses self)"

subsection \<open>The cumulative shift, as the specification describes it\<close>

text \<open>
  The shift in force at position \<open>i\<close> of a series of elapsed times: 0 at the first
  sample, and increased by \<open>time - lastTime\<close> at every sample that comes more than 24
  hours after the one before it. \<open>compressed r ts n\<close> is the first \<open>n\<close> times, each
  reduced by the shift in force at its position. Both are written for a rounding function
  \<open>r\<close>, as the loop is.
\<close>

fun shift_at :: "(real \<Rightarrow> real) \<Rightarrow> real list \<Rightarrow> nat \<Rightarrow> real" where
  "shift_at r ts 0 = 0"
| "shift_at r ts (Suc i) =
     (if r (ts ! Suc i - ts ! i) > 24 then r (shift_at r ts i + r (ts ! Suc i - ts ! i))
      else shift_at r ts i)"

definition compressed :: "(real \<Rightarrow> real) \<Rightarrow> real list \<Rightarrow> nat \<Rightarrow> real list" where
  "compressed r ts n = map (\<lambda>i. r (ts ! i - shift_at r ts i)) [0..<n]"

subsection \<open>Four elapsed times with one gap\<close>

text \<open>
  The doubles that Python writes 0.1, 0.2, 30.3 and 30.4: sorted hours with one gap,
  of a little more than 30 hours, before the third. They are the hours of scans taken
  360, 720, 109080 and 109440 seconds after the start of a run.
\<close>

definition example_hours :: "real list" where
  "example_hours =
     [3602879701896397 / 2 ^ 55, 3602879701896397 / 2 ^ 54,
      8528691794332877 / 2 ^ 48, 4278419646001971 / 2 ^ 47]"

subsection \<open>Names for the values \<^verbatim>\<open>get_peakfound_pressure\<close> computes\<close>

text \<open>
  The grid masses and the pressures of the scan inside the window
  \<open>mass \<plusminus> window / 2\<close>, the filtered pressures and the peak positions, as the method
  computes them.
\<close>

definition masses_window :: "offline_analysis \<Rightarrow> real \<Rightarrow> real \<Rightarrow> real list" where
  "masses_window self mass window = select (window_mask (masses self) mass window) (masses self)"

definition pressures_window :: "offline_analysis \<Rightarrow> real \<Rightarrow> nat \<Rightarrow> real \<Rightarrow> float64 list" where
  "pressures_window self mass scan_index window =
     select (window_mask (masses self) mass window) (interpolated_data self ! scan_index)"

definition smoothed_pressures ::
  "scipy \<Rightarrow> offline_analysis \<Rightarrow> real \<Rightarrow> nat \<Rightarrow> real \<Rightarrow> float64 list"
where
  "smoothed_pressures lib self mass scan_index window =
     gaussian_filter lib (pressures_window self mass scan_index window) 2"

definition peaks :: "scipy \<Rightarrow> offline_analysis \<Rightarrow> real \<Rightarrow> nat \<Rightarrow> real \<Rightarrow> nat list" where
  "peaks lib self mass scan_index window =
     find_peaks lib (smoothed_pressures lib self mass scan_index window) 2 (5 / 10 ^ 12)"

subsection \<open>The ratio sample of one scan, as the specification describes it\<close>

text \<open>
  The sample relative-ratio extraction emits for scan \<open>i\<close>: the timestamp and
  \<open>pressure / pressureRel\<close> when the peak-window results for both masses are present
  and the relative pressure is not zero, and nothing otherwise.
\<close>

definition ratio_sample ::
  "scipy \<Rightarrow> offline_analysis \<Rightarrow> real \<Rightarrow> real \<Rightarrow> real \<Rightarrow> nat \<Rightarrow> (datetime \<times> float64) option"
where
  "ratio_sample lib self mass mass_rel window i =
     (case (get_peakfound_pressure lib self mass i window,
            get_peakfound_pressure lib self mass_rel i window) of
        (Inr (Some (p, m)), Inr (Some (p_rel, m_rel))) \<Rightarrow>
          (if p_rel \<noteq> Val 0
           then (case fdiv p p_rel of Inr q \<Rightarrow> Some (times_seq self ! i, q) | Inl e \<Rightarrow> None)
           else None)
      | _ \<Rightarrow> None)"

subsection \<open>A stand-in for the library, and an object to try it on\<close>

text \<open>
  A filter that returns its input, and a peak search that returns the inner positions
  whose value is a number above both neighbours and at least \<open>height\<close>. The object
  has five grid masses and three scans: one with peaks at the masses 2 and 4, one that is
  zero everywhere, one that holds the sentinel from mass 3 on.
\<close>

definition local_maxima :: "float64 list \<Rightarrow> real \<Rightarrow> nat list" where
  "local_maxima xs height =
     filter (\<lambda>i. case (xs ! (i - 1), xs ! i, xs ! Suc i) of
                   (Val a, Val b, Val c) \<Rightarrow> a < b \<and> c < b \<and> height \<le> b
                 | _ \<Rightarrow> False)
       [1..<length xs - 1]"

definition example_scipy :: scipy where
  "example_scipy =
     \<lparr> gaussian_filter = (\<lambda>xs sigma. xs),
       find_peaks = (\<lambda>xs distance height. local_maxima xs height) \<rparr>"

definition peaks_loaded :: offline_analysis where
  "peaks_loaded =
     \<lparr> directory = [],
       times_seq = [(2024, 9, 11, 17, 0, 0), (2024, 9, 12, 17, 0, 0), (2024, 9, 13, 17, 0, 0)],
       labels = [Some ''control_run'', Some ''control_run'', Some ''control_run''],
       masses = [1, 2, 3, 4, 5],
       interpolated_data =
         [[Val 1, Val 5, Val 2, Val 7, Val 3],
          [Val 0, Val 0, Val 0, Val 0, Val 0],
          [Val 2, Val 4, NaN, NaN, NaN]],
       interpolated_data_is_array = True,
       run_intervals = default_run_intervals \<rparr>"

subsection \<open>The two columns of a table\<close>

text \<open>\<^verbatim>\<open>file_data[:, 0]\<close> and \<^verbatim>\<open>file_data[:, 1]\<close> of a table with two dimensions.\<close>

definition raw_masses :: "real list list \<Rightarrow> real list" where
  "raw_masses file_data = map (\<lambda>r. r ! 0) file_data"

definition raw_pressures :: "real list list \<Rightarrow> real list" where
  "raw_pressures file_data = map (\<lambda>r. r ! 1) file_data"

section \<open>Evaluation rules\<close>

lemmas strptime_eval = strptime_def matches_def field_Y_def field_m_def field_d_def field_H_def
  field_M_def field_S_def literal_def two_digits_def one_digit_def is_digit_def digit_val_def
  mk_datetime_def days_in_month_def is_leap_def

lemmas file_eval = process_file_def time_str_of_def loadtxt_def column_def interp1d_def assign_run_label_def
  init_def default_run_intervals_def Let_def

lemmas load_eval = load_data_def grid_of_def data_files_def endswith_def

lemma expo_numeral:
  "expo (numeral n) a =
     (if a < 1 then expo (pred_numeral n) (2 * a) - 1
      else if 2 \<le> a then expo (pred_numeral n) (a / 2) + 1 else 0)"
  by (simp add: numeral_eq_Suc)

lemmas rnd_eval = rnd_def round_half_even_def expo_numeral Let_def

lemmas gaps_eval = handle_large_gaps_def handle_large_gaps_with_def example_hours_def rnd_eval

text \<open>The step of the default grid, and its last mass, 150.00000000000014.\<close>

lemma arange_delta_value: "arange_delta = 225179981368525 / 2 ^ 52"
  by (simp add: arange_delta_def rnd_eval)

lemma default_mass_grid_last: "default_mass_grid ! 2980 = 5277655813324805 / 2 ^ 45"
  by (simp add: default_mass_grid_def arange_delta_value) (simp add: rnd_eval)

section \<open>Run labelling\<close>

text \<open>
  Claim C8. Run labelling is total and uses closed intervals: every timestamp gets
  exactly one of control, xenon, unlabelled; a timestamp equal to a bound of an interval
  is inside it; the first matching interval wins. The claim's example does not hold as
  written: with the default intervals the xenon run starts on 2024-09-16 at 11:21, so
  2024-09-16 12:00 is labelled xenon, not unlabelled.
\<close>

theorem assign_run_label_example_counterexample:
  "assign_run_label (init []) (2024, 9, 16, 12, 0, 0) = Some ''xenon_run''
   \<and> assign_run_label (init []) (2024, 9, 16, 12, 0, 0) \<noteq> None"
  by (simp add: assign_run_label_def init_def default_run_intervals_def)

text \<open>
  Claim C8, amended. The label is one of the three values; it is control exactly when
  the timestamp lies in the closed control interval, xenon exactly when it lies in the
  closed xenon interval and not in the control one, and unlabelled exactly when it lies
  in neither. With the default intervals 2024-09-11 17:00, 2024-09-16 12:00 and
  2024-09-20 09:00 are labelled control, xenon and xenon; 2024-09-16 10:00, which is in
  the gap between the runs, is unlabelled.
\<close>

theorem assign_run_label_closed_intervals:
  "assign_run_label self t \<in> {Some ''control_run'', Some ''xenon_run'', None}
   \<and> (assign_run_label self t = Some ''control_run'' \<longleftrightarrow>
        fst (control_run (run_intervals self)) \<le> t \<and> t \<le> snd (control_run (run_intervals self)))
   \<and> (assign_run_label self t = Some ''xenon_run'' \<longleftrightarrow>
        \<not> (fst (control_run (run_intervals self)) \<le> t \<and> t \<le> snd (control_run (run_intervals self)))
        \<and> fst (xenon_run (run_intervals self)) \<le> t \<and> t \<le> snd (xenon_run (run_intervals self)))
   \<and> (assign_run_label self t = None \<longleftrightarrow>
        \<not> (fst (control_run (run_intervals self)) \<le> t \<and> t \<le> snd (control_run (run_intervals self)))
        \<and> \<not> (fst (xenon_run (run_intervals self)) \<le> t \<and> t \<le> snd (xenon_run (run_intervals self))))
   \<and> assign_run_label (init dir) (2024, 9, 11, 17, 0, 0) = Some ''control_run''
   \<and> assign_run_label (init dir) (2024, 9, 16, 12, 0, 0) = Some ''xenon_run''
   \<and> assign_run_label (init dir) (2024, 9, 20, 9, 0, 0) = Some ''xenon_run''
   \<and> assign_run_label (init dir) (2024, 9, 16, 10, 0, 0) = None"
  by (simp add: assign_run_label_def init_def default_run_intervals_def)

text \<open>The four bounds of the default intervals, and the second after the last one.\<close>

theorem assign_run_label_closed_intervals_witness:
  "assign_run_label (init []) (2024, 9, 11, 16, 46, 0) = Some ''control_run''
   \<and> assign_run_label (init []) (2024, 9, 16, 9, 44, 0) = Some ''control_run''
   \<and> assign_run_label (init []) (2024, 9, 16, 11, 21, 0) = Some ''xenon_run''
   \<and> assign_run_label (init []) (2024, 9, 26, 11, 0, 0) = Some ''xenon_run''
   \<and> assign_run_label (init []) (2024, 9, 26, 11, 0, 1) = None"
  using assign_run_label_closed_intervals [of "init []" "(2024, 9, 11, 16, 46, 0)" "[]"]
    assign_run_label_closed_intervals [of "init []" "(2024, 9, 16, 9, 44, 0)" "[]"]
    assign_run_label_closed_intervals [of "init []" "(2024, 9, 16, 11, 21, 0)" "[]"]
    assign_run_label_closed_intervals [of "init []" "(2024, 9, 26, 11, 0, 0)" "[]"]
    assign_run_label_closed_intervals [of "init []" "(2024, 9, 26, 11, 0, 1)" "[]"]
  by (simp add: init_def default_run_intervals_def)

section \<open>Ingestion\<close>

lemma ebind_Inr_iff: "ebind m f = Inr y \<longleftrightarrow> (\<exists>x. m = Inr x \<and> f x = Inr y)"
  by (cases m) auto

lemma ingest_ok:
  "(\<forall>f \<in> set fs. \<exists>r. process_file self g f = Inr r) \<Longrightarrow>
     ingest self g fs acc = Inr (acc @ map (\<lambda>f. projr (process_file self g f)) fs)"
proof (induction fs arbitrary: acc)
  case Nil
  then show ?case by simp
next
  case (Cons f fs)
  then obtain r where r: "process_file self g f = Inr r" by auto
  from Cons have "ingest self g fs (acc @ [r])
      = Inr ((acc @ [r]) @ map (\<lambda>f. projr (process_file self g f)) fs)"
    by simp
  with r show ?case by simp
qed

lemma ingest_fails:
  "f \<in> set fs \<Longrightarrow> process_file self g f = Inl e \<Longrightarrow> \<exists>e'. ingest self g fs acc = Inl e'"
proof (induction fs arbitrary: acc)
  case Nil
  then show ?case by simp
next
  case (Cons a fs)
  show ?case
  proof (cases "process_file self g a")
    case (Inl e0)
    then show ?thesis by simp
  next
    case (Inr r)
    with Cons.prems have "f \<in> set fs" by auto
    from Cons.IH [OF this Cons.prems(2)] Inr show ?thesis by simp
  qed
qed

lemma ingest_Inr_iff:
  "(\<exists>res. ingest self g fs acc = Inr res) \<longleftrightarrow> (\<forall>f \<in> set fs. \<exists>r. process_file self g f = Inr r)"
proof
  assume "\<exists>res. ingest self g fs acc = Inr res"
  then obtain res where res: "ingest self g fs acc = Inr res" ..
  show "\<forall>f \<in> set fs. \<exists>r. process_file self g f = Inr r"
  proof
    fix f assume f: "f \<in> set fs"
    show "\<exists>r. process_file self g f = Inr r"
    proof (cases "process_file self g f")
      case (Inl e)
      from ingest_fails [OF f Inl, of acc] res show ?thesis by auto
    next
      case (Inr r)
      then show ?thesis by blast
    qed
  qed
next
  assume "\<forall>f \<in> set fs. \<exists>r. process_file self g f = Inr r"
  from ingest_ok [OF this] show "\<exists>res. ingest self g fs acc = Inr res" by blast
qed

lemma sort_key_Nil_iff: "sort_key f xs = [] \<longleftrightarrow> xs = []"
  by (metis length_sort length_0_conv)

lemma load_data_Inr_iff:
  "(\<exists>st. load_data self tg = Inr st) \<longleftrightarrow>
     data_files self \<noteq> []
     \<and> (\<forall>f \<in> set (data_files self). \<exists>r. process_file self (grid_of tg) f = Inr r)"
proof (cases "\<forall>f \<in> set (data_files self). \<exists>r. process_file self (grid_of tg) f = Inr r")
  case True
  from ingest_ok [OF True, of "[]"] show ?thesis
    using True by (auto simp: load_data_def Let_def sort_key_Nil_iff)
next
  case False
  then have "\<not> (\<exists>res. ingest self (grid_of tg) (data_files self) [] = Inr res)"
    by (simp add: ingest_Inr_iff)
  then obtain e where "ingest self (grid_of tg) (data_files self) [] = Inl e"
    by (cases "ingest self (grid_of tg) (data_files self) []") auto
  with False show ?thesis
    by (auto simp: load_data_def Let_def)
qed

lemma process_file_init_parses:
  "(\<exists>r. process_file (init dir) g f = Inr r) \<longleftrightarrow>
     (\<exists>timestamp. strptime (time_str_of (fst f)) = Inr timestamp)
     \<and> (\<exists>file_data. loadtxt (snd f) = Inr file_data
            \<and> 2 \<le> length file_data \<and> 2 \<le> length (hd file_data))"
proof (cases "strptime (time_str_of (fst f))")
  case (Inl e)
  then show ?thesis by (simp add: process_file_def)
next
  case ts: (Inr timestamp)
  show ?thesis
  proof (cases "loadtxt (snd f)")
    case (Inl e)
    with ts show ?thesis by (simp add: process_file_def)
  next
    case (Inr file_data)
    with ts show ?thesis
      by (simp add: process_file_def Let_def column_def init_def not_less)
  qed
qed

text \<open>
  On an object that has been loaded, the first file that parses ends the call in
  AttributeError.
\<close>

lemma process_file_on_loaded:
  "interpolated_data_is_array self \<Longrightarrow> \<exists>e. process_file self g f = Inl e"
  by (cases "strptime (time_str_of (fst f))"; cases "loadtxt (snd f)";
      cases "column (projr (loadtxt (snd f))) 0"; cases "column (projr (loadtxt (snd f))) 1")
     (simp_all add: process_file_def Let_def)

text \<open>
  Claim C1. A file whose name or content does not parse is skipped and the ingestion of
  the other files continues. The code has no handler for the exceptions of
  \<^verbatim>\<open>strptime\<close> and \<^verbatim>\<open>loadtxt\<close>: with one file whose name holds no timestamp, or one
  file with a field that is not a number, beside a well-formed file, \<^verbatim>\<open>load_data\<close>
  ends in ValueError and no scan is loaded.
\<close>

theorem load_data_skip_counterexample:
  "load_data (init [(''analog_scan_garbage.dat'', [[Some 1, Some 4], [Some 3, Some 8]]),
                    (''analog_scan_20240911_170000.dat'', [[Some 1, Some 4], [Some 3, Some 8]])])
     (Some [1, 2, 3]) = Inl ValueError
   \<and> load_data (init [(''analog_scan_20240920_090000.dat'', [[Some 1, None], [Some 3, Some 8]]),
                    (''analog_scan_20240911_170000.dat'', [[Some 1, Some 4], [Some 3, Some 8]])])
     (Some [1, 2, 3]) = Inl ValueError"
  by (simp add: load_eval file_eval strptime_eval)

text \<open>
  Claim C1, amended. Parsing errors are not local to a file. On a freshly constructed
  object, \<^verbatim>\<open>load_data\<close> returns a loaded object exactly when the directory holds at
  least one \<^verbatim>\<open>.dat\<close> file and, for every \<^verbatim>\<open>.dat\<close> file, the name parses as a
  timestamp and the content parses as a table of at least two lines and two columns; one
  malformed file makes the whole call raise.
\<close>

theorem load_data_succeeds_iff_all_files_parse:
  "(\<exists>st. load_data (init dir) tg = Inr st) \<longleftrightarrow>
     data_files (init dir) \<noteq> []
     \<and> (\<forall>f \<in> set (data_files (init dir)).
          (\<exists>timestamp. strptime (time_str_of (fst f)) = Inr timestamp)
          \<and> (\<exists>file_data. loadtxt (snd f) = Inr file_data
                 \<and> 2 \<le> length file_data \<and> 2 \<le> length (hd file_data)))"
  by (simp only: load_data_Inr_iff process_file_init_parses)

text \<open>The example directory: both of its scan files parse, and the third entry is not a scan file.\<close>

theorem load_data_succeeds_iff_all_files_parse_witness:
  "\<exists>st. load_data (init example_directory) (Some [1, 2, 3, 4]) = Inr st"
proof -
  have "data_files (init example_directory) \<noteq> []
     \<and> (\<forall>f \<in> set (data_files (init example_directory)).
          (\<exists>timestamp. strptime (time_str_of (fst f)) = Inr timestamp)
          \<and> (\<exists>file_data. loadtxt (snd f) = Inr file_data
                 \<and> 2 \<le> length file_data \<and> 2 \<le> length (hd file_data)))"
    by (simp add: example_directory_def load_eval file_eval strptime_eval init_def)
  then show ?thesis
    using load_data_succeeds_iff_all_files_parse [of example_directory "Some [1, 2, 3, 4]"]
    by blast
qed

lemma load_example: "load_data (init example_directory) (Some [1, 2, 3, 4]) = Inr example_loaded"
  by (simp add: example_directory_def example_loaded_def load_eval file_eval strptime_eval)

lemma load_ties: "load_data (init ties_directory) (Some [1, 2]) = Inr ties_loaded"
  by (simp add: ties_directory_def ties_loaded_def load_eval file_eval strptime_eval)

lemma zip3_maps:
  "zip (map fst xs) (zip (map (\<lambda>x. fst (snd x)) xs) (map (\<lambda>x. snd (snd x)) xs)) = xs"
  by (induction xs) auto

lemma load_data_Inr:
  assumes "load_data self tg = Inr st"
  shows "\<exists>tad. ingest self (grid_of tg) (data_files self) [] = Inr tad \<and> tad \<noteq> []
          \<and> st = self \<lparr> masses := grid_of tg,
                         times_seq := map fst (sort_key fst tad),
                         interpolated_data := map (\<lambda>x. fst (snd x)) (sort_key fst tad),
                         labels := map (\<lambda>x. snd (snd x)) (sort_key fst tad),
                         interpolated_data_is_array := True \<rparr>"
proof (cases "ingest self (grid_of tg) (data_files self) []")
  case (Inl e)
  with assms show ?thesis by (simp add: load_data_def)
next
  case (Inr tad)
  with assms show ?thesis
    by (auto simp: load_data_def Let_def sort_key_Nil_iff split: if_splits)
qed

text \<open>
  Claim C9. After \<^verbatim>\<open>load_data\<close> the scans are in non-decreasing order of timestamp,
  whatever the order of the directory listing, and scans with the same timestamp keep
  the order in which their files were listed: the scans with a given timestamp are,
  in the same order, the triples with that timestamp that the loop over the files
  collected.
\<close>

theorem load_data_sorted_stable:
  assumes "load_data self tg = Inr st"
  shows "sorted (times_seq st)
     \<and> times_seq st = map fst (scans st)
     \<and> (\<exists>tad. ingest self (grid_of tg) (data_files self) [] = Inr tad
            \<and> length (scans st) = length tad
            \<and> (\<forall>t. filter (\<lambda>x. fst x = t) (scans st) = filter (\<lambda>x. fst x = t) tad))"
proof -
  from load_data_Inr [OF assms] obtain tad where
    tad: "ingest self (grid_of tg) (data_files self) [] = Inr tad" and
    st: "st = self \<lparr> masses := grid_of tg,
                         times_seq := map fst (sort_key fst tad),
                         interpolated_data := map (\<lambda>x. fst (snd x)) (sort_key fst tad),
                         labels := map (\<lambda>x. snd (snd x)) (sort_key fst tad),
                         interpolated_data_is_array := True \<rparr>"
    by blast
  have sc: "scans st = sort_key fst tad"
    by (simp add: st scans_def zip3_maps)
  have "sorted (times_seq st)" by (simp add: st sorted_sort_key)
  moreover have "times_seq st = map fst (scans st)" by (simp add: sc) (simp add: st)
  moreover have "\<forall>t. filter (\<lambda>x. fst x = t) (scans st) = filter (\<lambda>x. fst x = t) tad"
    by (simp add: sc sort_key_stable)
  moreover have "length (scans st) = length tad" by (simp add: sc)
  ultimately show ?thesis using tad by blast
qed

text \<open>
  The directory with two scans of the same timestamp: after loading, the later scan is
  last and the two others are in the order of the listing.
\<close>

theorem load_data_sorted_stable_witness:
  "load_data (init ties_directory) (Some [1, 2]) = Inr ties_loaded
   \<and> sorted (times_seq ties_loaded)
   \<and> filter (\<lambda>x. fst x = (2024, 9, 11, 17, 0, 0)) (scans ties_loaded)
       = [((2024, 9, 11, 17, 0, 0), [Val 4, Val 8], Some ''control_run''),
          ((2024, 9, 11, 17, 0, 0), [Val 5, Val 7], Some ''control_run'')]"
proof -
  from load_data_sorted_stable [OF load_ties] have "sorted (times_seq ties_loaded)" by blast
  moreover have "filter (\<lambda>x. fst x = (2024, 9, 11, 17, 0, 0)) (scans ties_loaded)
       = [((2024, 9, 11, 17, 0, 0), [Val 4, Val 8], Some ''control_run''),
          ((2024, 9, 11, 17, 0, 0), [Val 5, Val 7], Some ''control_run'')]"
    by (simp add: scans_def ties_loaded_def)
  ultimately show ?thesis using load_ties by simp
qed

section \<open>The first least element\<close>

lemma argmin_loop_spec:
  assumes "mi < i" "length pre = i" "pre ! mi = mv" "\<forall>j<i. mv \<le> pre ! j" "\<forall>j<mi. mv < pre ! j"
  shows "argmin_loop xs i mv mi < length (pre @ xs)
     \<and> (\<forall>j<length (pre @ xs). (pre @ xs) ! argmin_loop xs i mv mi \<le> (pre @ xs) ! j)
     \<and> (\<forall>j<argmin_loop xs i mv mi. (pre @ xs) ! argmin_loop xs i mv mi < (pre @ xs) ! j)"
  using assms
proof (induction xs arbitrary: pre i mv mi)
  case Nil
  then show ?case by simp
next
  case (Cons x xs)
  show ?case
  proof (cases "x < mv")
    case True
    have "argmin_loop xs (Suc i) x i < length ((pre @ [x]) @ xs)
     \<and> (\<forall>j<length ((pre @ [x]) @ xs).
           ((pre @ [x]) @ xs) ! argmin_loop xs (Suc i) x i \<le> ((pre @ [x]) @ xs) ! j)
     \<and> (\<forall>j<argmin_loop xs (Suc i) x i.
           ((pre @ [x]) @ xs) ! argmin_loop xs (Suc i) x i < ((pre @ [x]) @ xs) ! j)"
    proof (rule Cons.IH)
      show "i < Suc i" by simp
      show "length (pre @ [x]) = Suc i" using Cons.prems by simp
      show "(pre @ [x]) ! i = x" using Cons.prems by (simp add: nth_append)
      show "\<forall>j<Suc i. x \<le> (pre @ [x]) ! j"
        using Cons.prems True
        by (auto simp: nth_append less_Suc_eq intro: less_imp_le order.strict_trans2)
      show "\<forall>j<i. x < (pre @ [x]) ! j"
        using Cons.prems True by (auto simp: nth_append intro: order.strict_trans2)
    qed
    with True show ?thesis by simp
  next
    case False
    have "argmin_loop xs (Suc i) mv mi < length ((pre @ [x]) @ xs)
     \<and> (\<forall>j<length ((pre @ [x]) @ xs).
           ((pre @ [x]) @ xs) ! argmin_loop xs (Suc i) mv mi \<le> ((pre @ [x]) @ xs) ! j)
     \<and> (\<forall>j<argmin_loop xs (Suc i) mv mi.
           ((pre @ [x]) @ xs) ! argmin_loop xs (Suc i) mv mi < ((pre @ [x]) @ xs) ! j)"
    proof (rule Cons.IH)
      show "mi < Suc i" using Cons.prems by simp
      show "length (pre @ [x]) = Suc i" using Cons.prems by simp
      show "(pre @ [x]) ! mi = mv" using Cons.prems by (simp add: nth_append)
      show "\<forall>j<Suc i. mv \<le> (pre @ [x]) ! j"
        using Cons.prems False by (auto simp: nth_append less_Suc_eq)
      show "\<forall>j<mi. mv < (pre @ [x]) ! j"
        using Cons.prems by (auto simp: nth_append)
    qed
    with False show ?thesis by simp
  qed
qed

lemma argmin_spec:
  assumes "xs \<noteq> []"
  shows "\<exists>k. argmin xs = Inr k \<and> k < length xs
            \<and> (\<forall>j<length xs. xs ! k \<le> xs ! j) \<and> (\<forall>j<k. xs ! k < xs ! j)"
proof -
  from assms obtain x rest where xs: "xs = x # rest" by (cases xs) auto
  have "argmin_loop rest 1 x 0 < length ([x] @ rest)
     \<and> (\<forall>j<length ([x] @ rest). ([x] @ rest) ! argmin_loop rest 1 x 0 \<le> ([x] @ rest) ! j)
     \<and> (\<forall>j<argmin_loop rest 1 x 0. ([x] @ rest) ! argmin_loop rest 1 x 0 < ([x] @ rest) ! j)"
    by (rule argmin_loop_spec) auto
  then show ?thesis by (simp add: xs argmin_def)
qed

lemma argmin_Nil: "argmin [] = Inl ValueError"
  by (simp add: argmin_def)

section \<open>Loaded objects are well formed\<close>

lemma process_file_length:
  "process_file self g f = Inr (t, v, l) \<Longrightarrow> length v = length g"
  unfolding process_file_def Let_def ebind_Inr_iff by (auto split: if_splits)

lemma ingest_lengths:
  "ingest self g fs acc = Inr res \<Longrightarrow> \<forall>x \<in> set acc. length (fst (snd x)) = length g
     \<Longrightarrow> \<forall>x \<in> set res. length (fst (snd x)) = length g"
proof (induction fs arbitrary: acc)
  case Nil
  then show ?case by simp
next
  case (Cons f fs)
  from Cons.prems(1) obtain r where r: "process_file self g f = Inr r"
    by (cases "process_file self g f") simp_all
  obtain t v l where tvl: "r = (t, v, l)" by (cases r) auto
  from r tvl have "length v = length g" by (simp add: process_file_length)
  with Cons.prems(2) tvl have "\<forall>x \<in> set (acc @ [r]). length (fst (snd x)) = length g" by auto
  moreover from Cons.prems(1) r have "ingest self g fs (acc @ [r]) = Inr res" by simp
  ultimately show ?case by (rule Cons.IH [rotated])
qed

lemma load_data_well_formed:
  assumes "load_data self tg = Inr st"
  shows "well_formed st \<and> masses st = grid_of tg"
proof -
  from load_data_Inr [OF assms] obtain tad where
    tad: "ingest self (grid_of tg) (data_files self) [] = Inr tad" and
    st: "st = self \<lparr> masses := grid_of tg,
                         times_seq := map fst (sort_key fst tad),
                         interpolated_data := map (\<lambda>x. fst (snd x)) (sort_key fst tad),
                         labels := map (\<lambda>x. snd (snd x)) (sort_key fst tad),
                         interpolated_data_is_array := True \<rparr>"
    by blast
  from ingest_lengths [OF tad] have "\<forall>x \<in> set tad. length (fst (snd x)) = length (grid_of tg)"
    by simp
  then show ?thesis by (simp add: st well_formed_def)
qed

section \<open>Nearest-point extraction\<close>

lemma mass_evolution_loop_outside:
  assumes "argmin (deviations self mass) = Inr k"
    and "abs (masses self ! k - mass) > mass_exclusion"
  shows "mass_evolution_loop self mass rows acc = Inr acc"
proof (induction rows)
  case Nil
  then show ?case by (cases acc) simp
next
  case (Cons r rows)
  then show ?case using assms by (cases acc; cases r) (simp add: deviations_def)
qed

lemma take_Suc_drop:
  "n < length xs \<Longrightarrow> take (Suc m) (drop n xs) = xs ! n # take m (drop (Suc n) xs)"
  by (simp add: Cons_nth_drop_Suc [symmetric])

lemma mass_evolution_loop_within:
  assumes "argmin (deviations self mass) = Inr k"
    and "\<not> abs (masses self ! k - mass) > mass_exclusion"
  shows "\<forall>row \<in> set rows. k < length row \<Longrightarrow> n + length rows \<le> length (times_seq self) \<Longrightarrow>
     mass_evolution_loop self mass (enumerate n rows) (ps, ts)
       = Inr (ps @ map (\<lambda>row. row ! k) rows, ts @ take (length rows) (drop n (times_seq self)))"
proof (induction rows arbitrary: n ps ts)
  case Nil
  then show ?case by simp
next
  case (Cons r rows)
  from Cons.prems have k: "k < length r" and n: "n < length (times_seq self)" by auto
  from Cons.prems have IH: "mass_evolution_loop self mass (enumerate (Suc n) rows) (ps @ [r ! k], ts @ [times_seq self ! n])
       = Inr ((ps @ [r ! k]) @ map (\<lambda>row. row ! k) rows, (ts @ [times_seq self ! n]) @ take (length rows) (drop (Suc n) (times_seq self)))"
    by (intro Cons.IH) auto
  show ?case
    using assms k n IH by (simp add: deviations_def getitem_def take_Suc_drop)
qed

lemma get_mass_evolution_spec:
  assumes "well_formed self" "masses self \<noteq> []"
  shows "\<exists>k. argmin (deviations self mass) = Inr k \<and> k < length (masses self)
      \<and> (\<forall>j<length (masses self). abs (masses self ! k - mass) \<le> abs (masses self ! j - mass))
      \<and> (\<forall>j<k. abs (masses self ! k - mass) < abs (masses self ! j - mass))
      \<and> get_mass_evolution self mass =
          Inr (if abs (masses self ! k - mass) > mass_exclusion then ([], [])
               else (map (\<lambda>row. row ! k) (interpolated_data self), times_seq self))"
proof -
  from assms(2) have "deviations self mass \<noteq> []" by (simp add: deviations_def)
  from argmin_spec [OF this] obtain k where
    k: "argmin (deviations self mass) = Inr k" "k < length (deviations self mass)"
      "\<forall>j<length (deviations self mass). deviations self mass ! k \<le> deviations self mass ! j"
      "\<forall>j<k. deviations self mass ! k < deviations self mass ! j"
    by blast
  then have k': "k < length (masses self)"
     "\<forall>j<length (masses self). abs (masses self ! k - mass) \<le> abs (masses self ! j - mass)"
     "\<forall>j<k. abs (masses self ! k - mass) < abs (masses self ! j - mass)"
    by (simp_all add: deviations_def)
  have "get_mass_evolution self mass =
          Inr (if abs (masses self ! k - mass) > mass_exclusion then ([], [])
               else (map (\<lambda>row. row ! k) (interpolated_data self), times_seq self))"
  proof (cases "abs (masses self ! k - mass) > mass_exclusion")
    case True
    with mass_evolution_loop_outside [OF k(1) True] show ?thesis
      by (simp add: get_mass_evolution_def)
  next
    case False
    have "mass_evolution_loop self mass (enumerate 0 (interpolated_data self)) ([], [])
       = Inr ([] @ map (\<lambda>row. row ! k) (interpolated_data self),
              [] @ take (length (interpolated_data self)) (drop 0 (times_seq self)))"
      using assms(1) k'(1) by (intro mass_evolution_loop_within [OF k(1) False]) (auto simp: well_formed_def)
    with False assms(1) show ?thesis
      by (simp add: get_mass_evolution_def well_formed_def)
  qed
  with k(1) k' show ?thesis by blast
qed


lemma well_formed_example: "well_formed example_loaded \<and> masses example_loaded \<noteq> []"
  by (simp add: well_formed_def example_loaded_def)

lemmas gme_eval = get_mass_evolution_def argmin_def getitem_def mass_exclusion_def

text \<open>
  Claim C6. Nearest-point extraction for a target mass, with the tolerance of 0.5 amu:
  the index selected is the first one that minimises the distance between grid mass and
  target mass (lowest index on ties); when that least distance exceeds the tolerance every
  scan is skipped; otherwise each scan gives the sample (timestamp, pressure at that
  index). So a sample is only ever emitted for a grid mass within the tolerance.
\<close>

theorem get_mass_evolution_nearest:
  assumes "well_formed self" and "masses self \<noteq> []"
  shows "\<exists>k<length (masses self).
        (\<forall>j<length (masses self). abs (masses self ! k - mass) \<le> abs (masses self ! j - mass))
      \<and> (\<forall>j<k. abs (masses self ! k - mass) < abs (masses self ! j - mass))
      \<and> (abs (masses self ! k - mass) > 1 / 2 \<longrightarrow> get_mass_evolution self mass = Inr ([], []))
      \<and> (abs (masses self ! k - mass) \<le> 1 / 2 \<longrightarrow>
            get_mass_evolution self mass
              = Inr (map (\<lambda>row. row ! k) (interpolated_data self), times_seq self))"
proof -
  from get_mass_evolution_spec [OF assms, of mass] obtain k where
    k: "k < length (masses self)"
      "\<forall>j<length (masses self). abs (masses self ! k - mass) \<le> abs (masses self ! j - mass)"
      "\<forall>j<k. abs (masses self ! k - mass) < abs (masses self ! j - mass)"
      "get_mass_evolution self mass =
          Inr (if abs (masses self ! k - mass) > mass_exclusion then ([], [])
               else (map (\<lambda>row. row ! k) (interpolated_data self), times_seq self))"
    by blast
  from k(4) have "abs (masses self ! k - mass) > 1 / 2 \<longrightarrow> get_mass_evolution self mass = Inr ([], [])"
    and "abs (masses self ! k - mass) \<le> 1 / 2 \<longrightarrow>
            get_mass_evolution self mass
              = Inr (map (\<lambda>row. row ! k) (interpolated_data self), times_seq self)"
    by (simp_all add: mass_exclusion_def)
  with k(1,2,3) show ?thesis by blast
qed

text \<open>
  On the loaded example, the target 1.2 selects index 0 (grid mass 1) and gives one
  sample per scan; the target 4.6 is 0.6 away from the nearest grid mass and gives none.
\<close>

theorem get_mass_evolution_nearest_witness:
  "get_mass_evolution example_loaded (12 / 10)
     = Inr ([Val 4, NaN], [(2024, 9, 11, 17, 0, 0), (2024, 9, 20, 9, 0, 0)])
   \<and> get_mass_evolution example_loaded (46 / 10) = Inr ([], [])"
proof -
  from get_mass_evolution_nearest [of example_loaded "12 / 10"] well_formed_example
  obtain k where k: "k < length (masses example_loaded)"
     "\<forall>j<length (masses example_loaded).
         abs (masses example_loaded ! k - 12 / 10) \<le> abs (masses example_loaded ! j - 12 / 10)"
     "abs (masses example_loaded ! k - 12 / 10) \<le> 1 / 2 \<longrightarrow>
            get_mass_evolution example_loaded (12 / 10)
              = Inr (map (\<lambda>row. row ! k) (interpolated_data example_loaded), times_seq example_loaded)"
    by blast
  have "0 < length (masses example_loaded)" by (simp add: example_loaded_def)
  with k(2) have "abs (masses example_loaded ! k - 12 / 10) \<le> abs (masses example_loaded ! 0 - 12 / 10)"
    by blast
  with k(1) have "k = 0"
    by (auto simp: example_loaded_def less_Suc_eq numeral_eq_Suc)
  with k(3) have a: "get_mass_evolution example_loaded (12 / 10)
     = Inr ([Val 4, NaN], [(2024, 9, 11, 17, 0, 0), (2024, 9, 20, 9, 0, 0)])"
    by (simp add: example_loaded_def)
  from get_mass_evolution_nearest [of example_loaded "46 / 10"] well_formed_example
  obtain k' where k': "k' < length (masses example_loaded)"
     "abs (masses example_loaded ! k' - 46 / 10) > 1 / 2 \<longrightarrow>
         get_mass_evolution example_loaded (46 / 10) = Inr ([], [])"
    by blast
  from k'(1) have "abs (masses example_loaded ! k' - 46 / 10) > 1 / 2"
    by (auto simp: example_loaded_def less_Suc_eq numeral_eq_Suc)
  with k'(2) have "get_mass_evolution example_loaded (46 / 10) = Inr ([], [])" by blast
  with a show ?thesis by blast
qed

text \<open>
  Claim C10. The index and the tolerance test depend on the target mass and the grid
  only, not on the scan: if some grid mass is within the tolerance, the series has one
  sample per scan, in the order of the scans, all read at one index; if none is, the
  series is empty. The test never keeps some scans and skips others.
\<close>

theorem get_mass_evolution_all_or_none:
  assumes "well_formed self" and "masses self \<noteq> []"
  shows "((\<exists>m \<in> set (masses self). abs (m - mass) \<le> mass_exclusion) \<longrightarrow>
            (\<exists>k<length (masses self).
               get_mass_evolution self mass
                 = Inr (map (\<lambda>row. row ! k) (interpolated_data self), times_seq self)
               \<and> length (map (\<lambda>row. row ! k) (interpolated_data self)) = length (times_seq self)))
       \<and> (\<not> (\<exists>m \<in> set (masses self). abs (m - mass) \<le> mass_exclusion) \<longrightarrow>
            get_mass_evolution self mass = Inr ([], []))"
proof -
  from get_mass_evolution_spec [OF assms, of mass] obtain k where
    k: "k < length (masses self)"
      "\<forall>j<length (masses self). abs (masses self ! k - mass) \<le> abs (masses self ! j - mass)"
      "get_mass_evolution self mass =
          Inr (if abs (masses self ! k - mass) > mass_exclusion then ([], [])
               else (map (\<lambda>row. row ! k) (interpolated_data self), times_seq self))"
    by blast
  have len: "length (map (\<lambda>row. row ! k) (interpolated_data self)) = length (times_seq self)"
    using assms(1) by (simp add: well_formed_def)
  show ?thesis
  proof (cases "\<exists>m \<in> set (masses self). abs (m - mass) \<le> mass_exclusion")
    case True
    then obtain j where "j < length (masses self)" "abs (masses self ! j - mass) \<le> mass_exclusion"
      by (auto simp: in_set_conv_nth)
    with k(2) have "abs (masses self ! k - mass) \<le> mass_exclusion" by force
    with k(1,3) len True show ?thesis by auto
  next
    case False
    with k(1) have "abs (masses self ! k - mass) > mass_exclusion"
      by (meson nth_mem not_le)
    with k(3) False show ?thesis by simp
  qed
qed

text \<open>On the loaded example: the target 1.2 gives a sample for every scan, the target 4.6 none.\<close>

theorem get_mass_evolution_all_or_none_witness:
  "(\<exists>k<length (masses example_loaded).
       get_mass_evolution example_loaded (12 / 10)
         = Inr (map (\<lambda>row. row ! k) (interpolated_data example_loaded), times_seq example_loaded))
   \<and> get_mass_evolution example_loaded (46 / 10) = Inr ([], [])"
proof -
  have "\<exists>m \<in> set (masses example_loaded). abs (m - 12 / 10) \<le> mass_exclusion"
    by (simp add: example_loaded_def mass_exclusion_def)
  moreover have "\<not> (\<exists>m \<in> set (masses example_loaded). abs (m - 46 / 10) \<le> mass_exclusion)"
    by (simp add: example_loaded_def mass_exclusion_def)
  ultimately show ?thesis
    using get_mass_evolution_all_or_none [of example_loaded "12 / 10"]
      get_mass_evolution_all_or_none [of example_loaded "46 / 10"] well_formed_example
    by blast
qed

text \<open>
  Claim C2. No extraction mode emits a sample whose pressure is the missing-value
  sentinel. Nearest-point extraction does: in the example directory the second scan
  covers the masses 2 to 3 only, its interpolated pressure at grid mass 1 is NaN, and
  \<^verbatim>\<open>get_mass_evolution\<close> for the target 1.2 emits that NaN with the scan's timestamp.
\<close>

theorem sentinel_emitted_counterexample:
  "load_data (init example_directory) (Some [1, 2, 3, 4]) = Inr example_loaded
   \<and> get_mass_evolution example_loaded (12 / 10)
       = Inr ([Val 4, NaN], [(2024, 9, 11, 17, 0, 0), (2024, 9, 20, 9, 0, 0)])"
  by (simp add: load_example) (simp add: example_loaded_def gme_eval)

section \<open>Gap compression\<close>

lemma example_hours_written:
  "example_hours = [rnd (1 / 10), rnd (2 / 10), rnd (303 / 10), rnd (304 / 10)]"
  by (simp add: example_hours_def rnd_eval)

lemma example_hours_doubles: "\<forall>t \<in> set example_hours. rnd t = t"
  by (simp add: example_hours_def rnd_eval)

lemma gaps_loop_spec:
  assumes "pre \<noteq> []" and "length ts \<le> length ps"
  shows "\<exists>marks'. gaps_loop r label_gap ts ps (last pre) (shift_at r (pre @ ts) (length pre - 1))
            (compressed r (pre @ ts) (length pre)) pps marks
          = Inr (compressed r (pre @ ts) (length (pre @ ts)), pps @ take (length ts) ps, marks')"
  using assms
proof (induction ts arbitrary: pre ps pps marks)
  case Nil
  then show ?case by simp
next
  case (Cons t ts)
  from Cons.prems obtain p ps' where ps: "ps = p # ps'" by (cases ps) auto
  let ?whole = "(pre @ [t]) @ ts"
  let ?n = "length pre"
  from Cons.prems(1) have n: "?n = Suc (?n - 1)" by simp
  have last: "?whole ! (?n - 1) = last pre"
    using Cons.prems(1) by (simp add: nth_append last_conv_nth)
  have t: "?whole ! ?n = t" by (simp add: nth_append)
  have "shift_at r ?whole (Suc (?n - 1))
      = (if r (?whole ! Suc (?n - 1) - ?whole ! (?n - 1)) > 24
         then r (shift_at r ?whole (?n - 1) + r (?whole ! Suc (?n - 1) - ?whole ! (?n - 1)))
         else shift_at r ?whole (?n - 1))"
    by (rule shift_at.simps)
  then have sh: "shift_at r ?whole ?n
      = (if r (t - last pre) > 24 then r (shift_at r ?whole (?n - 1) + r (t - last pre))
         else shift_at r ?whole (?n - 1))"
    using last t n by (metis (no_types, lifting))
  have comp: "compressed r ?whole (Suc ?n) = compressed r ?whole ?n @ [r (t - shift_at r ?whole ?n)]"
    using t by (simp add: compressed_def)
  from Cons.prems ps have "\<exists>marks'. gaps_loop r label_gap ts ps' (last (pre @ [t]))
            (shift_at r ?whole (length (pre @ [t]) - 1))
            (compressed r ?whole (length (pre @ [t]))) (pps @ [p])
            (if r (t - last pre) > 24 \<and> label_gap then marks @ [last pre] else marks)
          = Inr (compressed r ?whole (length ?whole), (pps @ [p]) @ take (length ts) ps', marks')"
    by (intro Cons.IH) auto
  then obtain marks' where IH: "gaps_loop r label_gap ts ps' t (shift_at r ?whole ?n)
            (compressed r ?whole (Suc ?n)) (pps @ [p])
            (if r (t - last pre) > 24 \<and> label_gap then marks @ [last pre] else marks)
          = Inr (compressed r ?whole (length ?whole), (pps @ [p]) @ take (length ts) ps', marks')"
    by auto
  have "gaps_loop r label_gap (t # ts) ps (last pre) (shift_at r ?whole (?n - 1))
            (compressed r ?whole ?n) pps marks
      = gaps_loop r label_gap ts ps' t (shift_at r ?whole ?n)
            (compressed r ?whole (Suc ?n)) (pps @ [p])
            (if r (t - last pre) > 24 \<and> label_gap then marks @ [last pre] else marks)"
    unfolding ps gaps_loop.simps Let_def comp sh by simp
  with IH show ?case by (simp add: ps)
qed

lemma handle_large_gaps_with_spec:
  assumes "ts \<noteq> []" and "length ps = length ts" and "r (hd ts - 0) = hd ts" and "r 0 = 0"
  shows "\<exists>marks. handle_large_gaps_with r ts ps label_gap = Inr (compressed r ts (length ts), ps, marks)"
proof -
  from assms obtain t0 rest where ts: "ts = t0 # rest" by (cases ts) auto
  with assms obtain p0 ps' where ps: "ps = p0 # ps'" by (cases ps) auto
  from assms(3,4) ts have r0: "r t0 = t0" "\<not> r 0 > 24" by simp_all
  from gaps_loop_spec [of "[t0]" rest ps' r label_gap "[p0]" "[]"] assms ts ps r0
  obtain marks' where "gaps_loop r label_gap rest ps' t0 0 [t0] [p0] []
      = Inr (compressed r ts (length ts), ps, marks')"
    by (auto simp: compressed_def)
  with r0 show ?thesis by (simp add: handle_large_gaps_with_def ts ps)
qed

lemma shift_at_single_gap:
  assumes "0 < k" "r (ts ! k - ts ! (k - 1)) = g" "g > 24"
    and "\<forall>j. 0 < j \<and> j < length ts \<and> j \<noteq> k \<longrightarrow> \<not> r (ts ! j - ts ! (j - 1)) > 24"
  shows "i < length ts \<Longrightarrow> shift_at r ts i = (if i < k then 0 else r (0 + g))"
proof (induction i)
  case 0
  with assms(1) show ?case by simp
next
  case (Suc i)
  then have IH: "shift_at r ts i = (if i < k then 0 else r (0 + g))" by simp
  show ?case
  proof (cases "Suc i = k")
    case True
    with assms(2,3) IH show ?thesis by auto
  next
    case False
    with assms(4) Suc.prems have "\<not> r (ts ! Suc i - ts ! i) > 24" by force
    with IH False show ?thesis by auto
  qed
qed

lemma compressed_exact_sorted:
  assumes "sorted ts"
  shows "n \<le> length ts \<Longrightarrow> sorted (compressed (\<lambda>x. x) ts n)"
proof -
  assume n: "n \<le> length ts"
  have "\<forall>i. Suc i < length (compressed (\<lambda>x. x) ts n)
          \<longrightarrow> compressed (\<lambda>x. x) ts n ! i \<le> compressed (\<lambda>x. x) ts n ! Suc i"
  proof (intro allI impI)
    fix i assume "Suc i < length (compressed (\<lambda>x. x) ts n)"
    then have i: "Suc i < n" by (simp add: compressed_def)
    with n assms have "ts ! i \<le> ts ! Suc i" by (simp add: sorted_iff_nth_mono)
    with i show "compressed (\<lambda>x. x) ts n ! i \<le> compressed (\<lambda>x. x) ts n ! Suc i"
      by (simp add: compressed_def)
  qed
  then show ?thesis by (simp add: sorted_iff_nth_Suc)
qed

lemma gaps_float_single_gap:
  assumes "length ps = length ts" and "0 < k" and "k < length ts"
    and "\<forall>t \<in> set ts. rnd t = t"
    and "rnd (ts ! k - ts ! (k - 1)) = g" and "g > 24"
    and "\<forall>j. 0 < j \<and> j < length ts \<and> j \<noteq> k \<longrightarrow> \<not> rnd (ts ! j - ts ! (j - 1)) > 24"
  shows "\<exists>new_ts marks. handle_large_gaps ts ps label_gap = Inr (new_ts, ps, marks)
       \<and> length new_ts = length ts
       \<and> (\<forall>i<k. new_ts ! i = ts ! i)
       \<and> (\<forall>i. k \<le> i \<and> i < length ts \<longrightarrow> new_ts ! i = rnd (ts ! i - rnd (0 + g)))"
proof -
  from assms(3) have ne: "ts \<noteq> []" by auto
  have r0: "rnd 0 = 0" by (simp add: rnd_def)
  from ne assms(4) have "rnd (hd ts - 0) = hd ts" by simp
  from handle_large_gaps_with_spec [OF ne assms(1) this r0] obtain marks where
    res: "handle_large_gaps ts ps label_gap = Inr (compressed rnd ts (length ts), ps, marks)"
    by (auto simp: handle_large_gaps_def)
  let ?new = "compressed rnd ts (length ts)"
  have len: "length ?new = length ts" by (simp add: compressed_def)
  have sh: "\<forall>i<length ts. shift_at rnd ts i = (if i < k then 0 else rnd (0 + g))"
    using shift_at_single_gap [OF assms(2,5,6,7)] by blast
  have before: "\<forall>i<k. ?new ! i = ts ! i"
  proof (intro allI impI)
    fix i assume i: "i < k"
    with assms(3) have il: "i < length ts" by simp
    with assms(4) have "rnd (ts ! i) = ts ! i" by simp
    with i il sh show "?new ! i = ts ! i" by (simp add: compressed_def)
  qed
  have after: "\<forall>i. k \<le> i \<and> i < length ts \<longrightarrow> ?new ! i = rnd (ts ! i - rnd (0 + g))"
    using sh by (simp add: compressed_def)
  from res len before after show ?thesis by blast
qed

lemma gaps_exact_single_gap:
  assumes "sorted ts" and "length ps = length ts"
    and "0 < k" and "k < length ts" and "ts ! k - ts ! (k - 1) = g" and "g > 24"
    and "\<forall>j. 0 < j \<and> j < length ts \<and> j \<noteq> k \<longrightarrow> \<not> ts ! j - ts ! (j - 1) > 24"
  shows "\<exists>new_ts marks. handle_large_gaps_with (\<lambda>x. x) ts ps label_gap = Inr (new_ts, ps, marks)
       \<and> length new_ts = length ts
       \<and> (\<forall>i<length ts. new_ts ! i = ts ! i - (if i < k then 0 else g))
       \<and> last new_ts - hd new_ts = (last ts - hd ts) - g
       \<and> sorted new_ts"
proof -
  from assms(4) have ne: "ts \<noteq> []" by auto
  from handle_large_gaps_with_spec [OF ne assms(2), of "\<lambda>x. x"] obtain marks where
    res: "handle_large_gaps_with (\<lambda>x. x) ts ps label_gap
            = Inr (compressed (\<lambda>x. x) ts (length ts), ps, marks)" by auto
  let ?new = "compressed (\<lambda>x. x) ts (length ts)"
  have len: "length ?new = length ts" by (simp add: compressed_def)
  have sh: "\<forall>i<length ts. shift_at (\<lambda>x. x) ts i = (if i < k then 0 else g)"
    using shift_at_single_gap [of k "\<lambda>x. x" ts g, OF assms(3,5,6,7)] by simp
  then have nth: "\<forall>i<length ts. ?new ! i = ts ! i - (if i < k then 0 else g)"
    by (simp add: compressed_def)
  have srt: "sorted ?new" using assms(1) by (simp add: compressed_exact_sorted)
  from ne len have "?new \<noteq> []" by auto
  then have "last ?new = ?new ! (length ts - 1)" "hd ?new = ?new ! 0"
    using len by (simp_all add: last_conv_nth hd_conv_nth)
  moreover have "last ts = ts ! (length ts - 1)" "hd ts = ts ! 0"
    using ne by (simp_all add: last_conv_nth hd_conv_nth)
  moreover have "length ts - 1 < length ts" "0 < length ts" "\<not> length ts - 1 < k" "0 < k"
    using assms(3,4) by auto
  ultimately have span: "last ?new - hd ?new = (last ts - hd ts) - g"
    using nth by simp
  from res len nth span srt show ?thesis by blast
qed


text \<open>
  Claim C5. For a sorted series with exactly one gap of duration \<open>g\<close> above 24 hours,
  the output's span is the input's span minus \<open>g\<close> and the output times are
  non-decreasing. The method computes in double precision, and both fail on the hours
  0.1, 0.2, 30.3, 30.4: the gap is removed by subtracting the rounded difference
  30.3 - 0.2, and the third output, 0.1999999999999993, is below the second, 0.2. The
  span of the output differs from the input's span minus the gap.
\<close>

theorem handle_large_gaps_rounding_counterexample:
  "sorted example_hours
   \<and> example_hours ! 2 - example_hours ! 1 > 24
   \<and> \<not> example_hours ! 1 - example_hours ! 0 > 24
   \<and> \<not> example_hours ! 3 - example_hours ! 2 > 24
   \<and> handle_large_gaps example_hours [Val 1, Val 2, Val 3, Val 4] True
       = Inr ([3602879701896397 / 2 ^ 55, 3602879701896397 / 2 ^ 54,
               56294995342131 / 2 ^ 48, 21110623253299 / 2 ^ 46],
              [Val 1, Val 2, Val 3, Val 4], [3602879701896397 / 2 ^ 54])
   \<and> (56294995342131 / 2 ^ 48 :: real) < 3602879701896397 / 2 ^ 54
   \<and> \<not> sorted [3602879701896397 / 2 ^ 55, 3602879701896397 / 2 ^ 54,
                 56294995342131 / 2 ^ 48, 21110623253299 / 2 ^ 46 :: real]
   \<and> (21110623253299 / 2 ^ 46 - 3602879701896397 / 2 ^ 55 :: real)
       \<noteq> (last example_hours - hd example_hours) - (example_hours ! 2 - example_hours ! 1)"
proof -
  have a: "sorted example_hours" by (simp add: example_hours_def)
  have b: "example_hours ! 2 - example_hours ! 1 > 24"
    "\<not> example_hours ! 1 - example_hours ! 0 > 24"
    "\<not> example_hours ! 3 - example_hours ! 2 > 24"
    by (simp_all add: example_hours_def)
  have c: "handle_large_gaps example_hours [Val 1, Val 2, Val 3, Val 4] True
       = Inr ([3602879701896397 / 2 ^ 55, 3602879701896397 / 2 ^ 54,
               56294995342131 / 2 ^ 48, 21110623253299 / 2 ^ 46],
              [Val 1, Val 2, Val 3, Val 4], [3602879701896397 / 2 ^ 54])"
    by (simp add: gaps_eval)
  have d: "(56294995342131 / 2 ^ 48 :: real) < 3602879701896397 / 2 ^ 54" by simp
  have e: "\<not> sorted [3602879701896397 / 2 ^ 55, 3602879701896397 / 2 ^ 54,
                 56294995342131 / 2 ^ 48, 21110623253299 / 2 ^ 46 :: real]"
    by simp
  have f: "(21110623253299 / 2 ^ 46 - 3602879701896397 / 2 ^ 55 :: real)
       \<noteq> (last example_hours - hd example_hours) - (example_hours ! 2 - example_hours ! 1)"
    by (simp add: example_hours_def)
  from a b c d e f show ?thesis by blast
qed

text \<open>
  Claim C5, amended. For a non-empty series of doubles with exactly one gap, of computed
  duration \<open>g\<close> above 24 hours, gap compression returns a series of the same length
  whose pressures are the input's, unchanged and in the same order. The cumulative shift
  starts at 0 and increases by \<open>time - lastTime\<close> at the gap, and each emitted time is
  the original time minus the current shift, each operation rounded to double precision:
  the times before the gap are emitted unchanged, and a time \<open>t\<close> from the gap on is
  emitted as the rounded \<open>t - g\<close>. In exact arithmetic, on a sorted series, the same
  loop gives a span equal to the input's span minus \<open>g\<close> and non-decreasing times; in
  double precision neither of the two is guaranteed.
\<close>

theorem handle_large_gaps_single_gap:
  "(length ps = length ts \<and> 0 < k \<and> k < length ts
      \<and> (\<forall>t \<in> set ts. rnd t = t)
      \<and> rnd (ts ! k - ts ! (k - 1)) = g \<and> g > 24
      \<and> (\<forall>j. 0 < j \<and> j < length ts \<and> j \<noteq> k \<longrightarrow> \<not> rnd (ts ! j - ts ! (j - 1)) > 24)
     \<longrightarrow> (\<exists>new_ts marks. handle_large_gaps ts ps label_gap = Inr (new_ts, ps, marks)
            \<and> length new_ts = length ts
            \<and> (\<forall>i<k. new_ts ! i = ts ! i)
            \<and> (\<forall>i. k \<le> i \<and> i < length ts \<longrightarrow> new_ts ! i = rnd (ts ! i - rnd (0 + g)))))
   \<and> (sorted ts \<and> length ps = length ts \<and> 0 < k \<and> k < length ts
      \<and> ts ! k - ts ! (k - 1) = g \<and> g > 24
      \<and> (\<forall>j. 0 < j \<and> j < length ts \<and> j \<noteq> k \<longrightarrow> \<not> ts ! j - ts ! (j - 1) > 24)
     \<longrightarrow> (\<exists>new_ts marks. handle_large_gaps_with (\<lambda>x. x) ts ps label_gap = Inr (new_ts, ps, marks)
            \<and> length new_ts = length ts
            \<and> (\<forall>i<length ts. new_ts ! i = ts ! i - (if i < k then 0 else g))
            \<and> last new_ts - hd new_ts = (last ts - hd ts) - g
            \<and> sorted new_ts))"
proof (intro conjI impI)
  assume "length ps = length ts \<and> 0 < k \<and> k < length ts
      \<and> (\<forall>t \<in> set ts. rnd t = t)
      \<and> rnd (ts ! k - ts ! (k - 1)) = g \<and> g > 24
      \<and> (\<forall>j. 0 < j \<and> j < length ts \<and> j \<noteq> k \<longrightarrow> \<not> rnd (ts ! j - ts ! (j - 1)) > 24)"
  then show "\<exists>new_ts marks. handle_large_gaps ts ps label_gap = Inr (new_ts, ps, marks)
            \<and> length new_ts = length ts
            \<and> (\<forall>i<k. new_ts ! i = ts ! i)
            \<and> (\<forall>i. k \<le> i \<and> i < length ts \<longrightarrow> new_ts ! i = rnd (ts ! i - rnd (0 + g)))"
    by (intro gaps_float_single_gap) blast+
next
  assume "sorted ts \<and> length ps = length ts \<and> 0 < k \<and> k < length ts
      \<and> ts ! k - ts ! (k - 1) = g \<and> g > 24
      \<and> (\<forall>j. 0 < j \<and> j < length ts \<and> j \<noteq> k \<longrightarrow> \<not> ts ! j - ts ! (j - 1) > 24)"
  then show "\<exists>new_ts marks. handle_large_gaps_with (\<lambda>x. x) ts ps label_gap = Inr (new_ts, ps, marks)
            \<and> length new_ts = length ts
            \<and> (\<forall>i<length ts. new_ts ! i = ts ! i - (if i < k then 0 else g))
            \<and> last new_ts - hd new_ts = (last ts - hd ts) - g
            \<and> sorted new_ts"
    by (intro gaps_exact_single_gap) blast+
qed

text \<open>
  The four hours of the example in double precision, and the hours 0, 1, 30, 31.5 in
  exact arithmetic.
\<close>

theorem handle_large_gaps_single_gap_witness:
  "(\<exists>new_ts marks. handle_large_gaps example_hours [Val 1, NaN, Val 3, Val 4] True
        = Inr (new_ts, [Val 1, NaN, Val 3, Val 4], marks)
      \<and> new_ts ! 1 = 3602879701896397 / 2 ^ 54
      \<and> new_ts ! 2 = rnd (8528691794332877 / 2 ^ 48 - rnd (0 + 4236198399495373 / 2 ^ 47)))
   \<and> (\<exists>new_ts marks. handle_large_gaps_with (\<lambda>x. x) [0, 1, 30, 63 / 2] [Val 1, NaN, Val 3, Val 4] True
        = Inr (new_ts, [Val 1, NaN, Val 3, Val 4], marks)
      \<and> last new_ts - hd new_ts = (63 / 2 - 0) - 29 \<and> sorted new_ts)"
proof -
  let ?ps = "[Val 1, NaN, Val 3, Val 4]"
  have "length ?ps = length example_hours" "(0::nat) < 2" "2 < length example_hours"
    by (simp_all add: example_hours_def)
  moreover note example_hours_doubles
  moreover have "rnd (example_hours ! 2 - example_hours ! (2 - 1)) = 4236198399495373 / 2 ^ 47"
    "(4236198399495373 / 2 ^ 47 :: real) > 24"
    by (simp_all add: example_hours_def rnd_eval)
  moreover have "\<forall>j. 0 < j \<and> j < length example_hours \<and> j \<noteq> 2
       \<longrightarrow> \<not> rnd (example_hours ! j - example_hours ! (j - 1)) > 24"
  proof (intro allI impI)
    fix j assume "0 < j \<and> j < length example_hours \<and> j \<noteq> 2"
    then have "j = 1 \<or> j = 3" by (auto simp: example_hours_def)
    moreover have "\<not> rnd (example_hours ! 1 - example_hours ! (1 - 1)) > 24"
      "\<not> rnd (example_hours ! 3 - example_hours ! (3 - 1)) > 24"
      by (simp_all add: example_hours_def rnd_eval)
    ultimately show "\<not> rnd (example_hours ! j - example_hours ! (j - 1)) > 24" by blast
  qed
  ultimately obtain new_ts marks where
    f: "handle_large_gaps example_hours ?ps True = Inr (new_ts, ?ps, marks)"
      "\<forall>i<2. new_ts ! i = example_hours ! i"
      "\<forall>i. 2 \<le> i \<and> i < length example_hours
          \<longrightarrow> new_ts ! i = rnd (example_hours ! i - rnd (0 + 4236198399495373 / 2 ^ 47))"
    using handle_large_gaps_single_gap [THEN conjunct1, of ?ps example_hours 2
        "4236198399495373 / 2 ^ 47" True]
    by blast
  from f(2) have f1: "new_ts ! 1 = 3602879701896397 / 2 ^ 54" by (simp add: example_hours_def)
  have "2 \<le> (2::nat) \<and> 2 < length example_hours" by (simp add: example_hours_def)
  with f(3) have "new_ts ! 2 = rnd (example_hours ! 2 - rnd (0 + 4236198399495373 / 2 ^ 47))"
    by blast
  then have f2: "new_ts ! 2 = rnd (8528691794332877 / 2 ^ 48 - rnd (0 + 4236198399495373 / 2 ^ 47))"
    by (simp add: example_hours_def)
  let ?ts = "[0, 1, 30, 63 / 2] :: real list"
  have "sorted ?ts" "length ?ps = length ?ts" "(0::nat) < 2" "2 < length ?ts"
    "?ts ! 2 - ?ts ! (2 - 1) = 29" "(29::real) > 24"
    by simp_all
  moreover have "\<forall>j. 0 < j \<and> j < length ?ts \<and> j \<noteq> 2 \<longrightarrow> \<not> ?ts ! j - ?ts ! (j - 1) > 24"
    by (auto simp: less_Suc_eq numeral_eq_Suc)
  ultimately obtain new_ts' marks' where
    "handle_large_gaps_with (\<lambda>x. x) ?ts ?ps True = Inr (new_ts', ?ps, marks')"
    "last new_ts' - hd new_ts' = (last ?ts - hd ?ts) - 29" "sorted new_ts'"
    using handle_large_gaps_single_gap [THEN conjunct2, of ?ts ?ps 2 29 True] by blast
  with f(1) f1 f2 show ?thesis by auto
qed

section \<open>Peak-window extraction\<close>

lemmas gpp_eval = get_peakfound_pressure_def window_mask_def select_def example_scipy_def
  local_maxima_def argmin_def take_at_def getitem_def Let_def peaks_loaded_def

lemmas window_eval = masses_window_def pressures_window_def smoothed_pressures_def peaks_def
  window_mask_def select_def example_scipy_def local_maxima_def peaks_loaded_def



lemma select_map_filter: "select (map P xs) xs = filter P xs"
  by (induction xs) (auto simp: select_def)

lemma length_select:
  "length xs = length msk \<Longrightarrow> length ys = length msk \<Longrightarrow> length (select msk xs) = length (select msk ys)"
proof (induction msk arbitrary: xs ys)
  case Nil
  then show ?case by (simp add: select_def)
next
  case (Cons b msk)
  then obtain x xs' y ys' where "xs = x # xs'" "ys = y # ys'" by (cases xs; cases ys) auto
  with Cons show ?case by (auto simp: select_def)
qed

lemma masses_window_filter:
  "masses_window self mass window
     = filter (\<lambda>m. mass - window / 2 \<le> m \<and> m \<le> mass + window / 2) (masses self)"
  by (simp add: masses_window_def window_mask_def select_map_filter)

lemma no_True_iff:
  "True \<notin> set (window_mask ms mass window) \<longleftrightarrow> select (window_mask ms mass window) ms = []"
  by (auto simp: window_mask_def select_map_filter filter_empty_conv)

lemma gpp_unfold:
  assumes "scan_index < length (interpolated_data self)"
    and "length (interpolated_data self ! scan_index) = length (masses self)"
  shows "get_peakfound_pressure lib self mass scan_index window =
     (if masses_window self mass window = [] then Inr None
      else if length (peaks lib self mass scan_index window) = 0
        then
          ebind (argmin (map (\<lambda>m. abs (m - mass)) (masses_window self mass window))) (\<lambda>idx.
          ebind (getitem (pressures_window self mass scan_index window) idx) (\<lambda>p.
          ebind (getitem (masses_window self mass window) idx) (\<lambda>m. Inr (Some (p, m)))))
        else
          ebind (take_at (masses_window self mass window) (peaks lib self mass scan_index window)) (\<lambda>peak_masses.
          ebind (argmin (map (\<lambda>m. abs (m - mass)) peak_masses)) (\<lambda>j.
          ebind (getitem (peaks lib self mass scan_index window) j) (\<lambda>peak_idx.
          ebind (getitem (smoothed_pressures lib self mass scan_index window) peak_idx) (\<lambda>p.
          ebind (getitem (masses_window self mass window) peak_idx) (\<lambda>m. Inr (Some (p, m))))))))"
  using assms
  by (simp add: get_peakfound_pressure_def getitem_def Let_def no_True_iff
      masses_window_def pressures_window_def smoothed_pressures_def peaks_def)
     (simp add: window_mask_def)

lemma gpp_fallback:
  assumes "scan_index < length (interpolated_data self)"
    and "length (interpolated_data self ! scan_index) = length (masses self)"
    and "masses_window self mass window \<noteq> []"
    and "peaks lib self mass scan_index window = []"
  shows "\<exists>idx<length (masses_window self mass window).
       get_peakfound_pressure lib self mass scan_index window
         = Inr (Some (pressures_window self mass scan_index window ! idx, masses_window self mass window ! idx))
     \<and> (\<forall>j<length (masses_window self mass window).
           abs (masses_window self mass window ! idx - mass) \<le> abs (masses_window self mass window ! j - mass))"
proof -
  let ?mw = "masses_window self mass window"
  let ?pw = "pressures_window self mass scan_index window"
  have len: "length ?pw = length ?mw"
    using assms(2) unfolding masses_window_def pressures_window_def
    by (intro length_select) (simp_all add: window_mask_def)
  from assms(3) have "map (\<lambda>m. abs (m - mass)) ?mw \<noteq> []" by simp
  from argmin_spec [OF this] obtain idx where
    idx: "argmin (map (\<lambda>m. abs (m - mass)) ?mw) = Inr idx" "idx < length ?mw"
      "\<forall>j<length ?mw. abs (?mw ! idx - mass) \<le> abs (?mw ! j - mass)"
    by auto
  have "get_peakfound_pressure lib self mass scan_index window = Inr (Some (?pw ! idx, ?mw ! idx))"
    using assms(3,4) idx(1,2) len by (simp add: gpp_unfold [OF assms(1,2)] getitem_def)
  with idx show ?thesis by blast
qed

lemma gpp_peak:
  assumes "scan_index < length (interpolated_data self)"
    and "length (interpolated_data self ! scan_index) = length (masses self)"
    and "masses_window self mass window \<noteq> []"
    and "peaks lib self mass scan_index window \<noteq> []"
    and "length (smoothed_pressures lib self mass scan_index window)
           = length (pressures_window self mass scan_index window)"
    and "\<forall>k \<in> set (peaks lib self mass scan_index window).
           k < length (pressures_window self mass scan_index window)"
  shows "\<exists>k \<in> set (peaks lib self mass scan_index window).
       get_peakfound_pressure lib self mass scan_index window
         = Inr (Some (smoothed_pressures lib self mass scan_index window ! k, masses_window self mass window ! k))
     \<and> (\<forall>j \<in> set (peaks lib self mass scan_index window).
           abs (masses_window self mass window ! k - mass) \<le> abs (masses_window self mass window ! j - mass))"
proof -
  let ?mw = "masses_window self mass window"
  let ?pw = "pressures_window self mass scan_index window"
  let ?sm = "smoothed_pressures lib self mass scan_index window"
  let ?pk = "peaks lib self mass scan_index window"
  let ?dev = "map (\<lambda>m. abs (m - mass)) (map (\<lambda>k. ?mw ! k) ?pk)"
  have len: "length ?pw = length ?mw"
    using assms(2) unfolding masses_window_def pressures_window_def
    by (intro length_select) (simp_all add: window_mask_def)
  from assms(6) len have inr: "\<forall>k \<in> set ?pk. k < length ?mw" by simp
  then have ta: "take_at ?mw ?pk = Inr (map (\<lambda>k. ?mw ! k) ?pk)" by (simp add: take_at_def)
  from assms(4) have "?dev \<noteq> []" by simp
  from argmin_spec [OF this] obtain j where
    j: "argmin ?dev = Inr j" "j < length ?pk" "\<forall>i<length ?pk. ?dev ! j \<le> ?dev ! i"
    by auto
  have pj: "?pk ! j \<in> set ?pk" using j(2) by simp
  with inr have r: "?pk ! j < length ?mw" by blast
  with len assms(5) have r': "?pk ! j < length ?sm" by simp
  have "get_peakfound_pressure lib self mass scan_index window = Inr (Some (?sm ! (?pk ! j), ?mw ! (?pk ! j)))"
    using assms(3,4) ta j(1,2) r r' by (simp add: gpp_unfold [OF assms(1,2)] getitem_def)
  moreover have "\<forall>i \<in> set ?pk. abs (?mw ! (?pk ! j) - mass) \<le> abs (?mw ! i - mass)"
  proof
    fix i assume "i \<in> set ?pk"
    then obtain n where n: "n < length ?pk" "?pk ! n = i" by (auto simp: in_set_conv_nth)
    with j(3) have "?dev ! j \<le> ?dev ! n" by blast
    with n j(2) show "abs (?mw ! (?pk ! j) - mass) \<le> abs (?mw ! i - mass)" by simp
  qed
  ultimately show ?thesis using pj by blast
qed

text \<open>
  Claim C3. Peak-window extraction for a target mass and a window width, on one scan.
  The window holds the grid masses within \<open>mass \<plusminus> window / 2\<close>. The method returns
  no result exactly when the window is empty. When the window is not empty and the peak
  search on the filtered window pressures (filter with \<open>sigma = 2\<close>, search with a least
  distance of 2 positions and a least height of \<open>5e-12\<close>) finds peaks, it returns the
  filtered pressure and the grid mass at a peak whose grid mass is nearest to the target.
  When the search finds none, it returns the raw pressure and the grid mass at a position
  of the window whose mass is nearest to the target; so a non-empty window always gives a
  result. The scan is a row of the data as long as the grid; of the library it is assumed
  that the filter keeps the length and that peak positions lie inside the array.
\<close>

theorem get_peakfound_pressure_window:
  assumes "scan_index < length (interpolated_data self)"
    and "length (interpolated_data self ! scan_index) = length (masses self)"
    and "length (smoothed_pressures lib self mass scan_index window)
           = length (pressures_window self mass scan_index window)"
    and "\<forall>k \<in> set (peaks lib self mass scan_index window).
           k < length (pressures_window self mass scan_index window)"
  shows "masses_window self mass window
           = filter (\<lambda>m. mass - window / 2 \<le> m \<and> m \<le> mass + window / 2) (masses self)
     \<and> (get_peakfound_pressure lib self mass scan_index window = Inr None
           \<longleftrightarrow> masses_window self mass window = [])
     \<and> (masses_window self mass window \<noteq> [] \<and> peaks lib self mass scan_index window \<noteq> [] \<longrightarrow>
          (\<exists>k \<in> set (peaks lib self mass scan_index window).
             get_peakfound_pressure lib self mass scan_index window
               = Inr (Some (smoothed_pressures lib self mass scan_index window ! k,
                            masses_window self mass window ! k))
           \<and> (\<forall>j \<in> set (peaks lib self mass scan_index window).
                 abs (masses_window self mass window ! k - mass)
                   \<le> abs (masses_window self mass window ! j - mass))))
     \<and> (masses_window self mass window \<noteq> [] \<and> peaks lib self mass scan_index window = [] \<longrightarrow>
          (\<exists>idx<length (masses_window self mass window).
             get_peakfound_pressure lib self mass scan_index window
               = Inr (Some (pressures_window self mass scan_index window ! idx,
                            masses_window self mass window ! idx))
           \<and> (\<forall>j<length (masses_window self mass window).
                 abs (masses_window self mass window ! idx - mass)
                   \<le> abs (masses_window self mass window ! j - mass))))"
proof -
  note fb = gpp_fallback [OF assms(1,2)]
  note pk = gpp_peak [OF assms(1,2) _ _ assms(3,4)]
  have none: "get_peakfound_pressure lib self mass scan_index window = Inr None
           \<longleftrightarrow> masses_window self mass window = []"
  proof (cases "masses_window self mass window = []")
    case True
    then show ?thesis by (simp add: gpp_unfold [OF assms(1,2)])
  next
    case False
    show ?thesis
    proof (cases "peaks lib self mass scan_index window = []")
      case True
      from fb [OF False True] False show ?thesis by auto
    next
      case nonempty: False
      from pk [OF False nonempty] False show ?thesis by auto
    qed
  qed
  from none fb pk masses_window_filter show ?thesis by blast
qed



lemma peaks_loaded_rows:
  "0 < length (interpolated_data peaks_loaded)"
  "length (interpolated_data peaks_loaded ! 0) = length (masses peaks_loaded)"
  by (simp_all add: peaks_loaded_def)

text \<open>
  On the first scan of the example: with target 3.5 and width 6 the peaks are at the
  masses 2 and 4 and the one at 4 is returned; with target 100 the window is empty;
  with target 1.2 and width 1 the window holds the mass 1 alone, there is no peak, and
  the raw pressure is returned.
\<close>

theorem get_peakfound_pressure_window_witness:
  "get_peakfound_pressure example_scipy peaks_loaded (7 / 2) 0 6 = Inr (Some (Val 7, 4))
   \<and> get_peakfound_pressure example_scipy peaks_loaded 100 0 2 = Inr None
   \<and> get_peakfound_pressure example_scipy peaks_loaded (6 / 5) 0 1 = Inr (Some (Val 1, 1))"
proof -
  have mw: "masses_window peaks_loaded (7 / 2) 6 = [1, 2, 3, 4, 5]"
    by (simp add: window_eval)
  have pw: "pressures_window peaks_loaded (7 / 2) 0 6 = [Val 1, Val 5, Val 2, Val 7, Val 3]"
    by (simp add: window_eval)
  have sm: "smoothed_pressures example_scipy peaks_loaded (7 / 2) 0 6
      = [Val 1, Val 5, Val 2, Val 7, Val 3]"
    by (simp add: window_eval)
  have pk: "peaks example_scipy peaks_loaded (7 / 2) 0 6 = [1, 3]"
    by (simp add: window_eval upt_conv_Cons)
  have "length (smoothed_pressures example_scipy peaks_loaded (7 / 2) 0 6)
           = length (pressures_window peaks_loaded (7 / 2) 0 6)"
    and "\<forall>k \<in> set (peaks example_scipy peaks_loaded (7 / 2) 0 6).
           k < length (pressures_window peaks_loaded (7 / 2) 0 6)"
    by (simp_all add: sm pw pk)
  note w = get_peakfound_pressure_window [OF peaks_loaded_rows this,
      THEN conjunct2, THEN conjunct2, THEN conjunct1, unfolded mw pw sm pk]
  have "\<exists>k \<in> set [1, 3].
      get_peakfound_pressure example_scipy peaks_loaded (7 / 2) 0 6
         = Inr (Some ([Val 1, Val 5, Val 2, Val 7, Val 3] ! k, [1, 2, 3, 4, 5] ! k))
      \<and> (\<forall>j \<in> set [1, 3]. abs ([1, 2, 3, 4, 5 :: real] ! k - 7 / 2)
                               \<le> abs ([1, 2, 3, 4, 5] ! j - 7 / 2))"
    using w by simp
  then obtain k where k: "k \<in> set [1, 3]"
    "get_peakfound_pressure example_scipy peaks_loaded (7 / 2) 0 6
       = Inr (Some ([Val 1, Val 5, Val 2, Val 7, Val 3] ! k, [1, 2, 3, 4, 5] ! k))"
    "\<forall>j \<in> set [1, 3]. abs ([1, 2, 3, 4, 5 :: real] ! k - 7 / 2) \<le> abs ([1, 2, 3, 4, 5] ! j - 7 / 2)"
    by blast
  from k(1,3) have "k = 3" by auto
  with k(2) have a: "get_peakfound_pressure example_scipy peaks_loaded (7 / 2) 0 6
      = Inr (Some (Val 7, 4))"
    by simp
  have mw2: "masses_window peaks_loaded 100 2 = []"
    by (simp add: window_eval)
  have pw2: "pressures_window peaks_loaded 100 0 2 = []"
    by (simp add: window_eval)
  have sm2: "smoothed_pressures example_scipy peaks_loaded 100 0 2 = []"
    by (simp add: window_eval)
  have pk2: "peaks example_scipy peaks_loaded 100 0 2 = []"
    by (simp add: window_eval)
  have "length (smoothed_pressures example_scipy peaks_loaded 100 0 2)
           = length (pressures_window peaks_loaded 100 0 2)"
    and "\<forall>k \<in> set (peaks example_scipy peaks_loaded 100 0 2).
           k < length (pressures_window peaks_loaded 100 0 2)"
    by (simp_all add: sm2 pw2 pk2)
  note w2 = get_peakfound_pressure_window [OF peaks_loaded_rows this,
      THEN conjunct2, THEN conjunct1, unfolded mw2 pw2 sm2 pk2]
  have b: "get_peakfound_pressure example_scipy peaks_loaded 100 0 2 = Inr None"
    using w2 by simp
  have mw3: "masses_window peaks_loaded (6 / 5) 1 = [1]"
    by (simp add: window_eval)
  have pw3: "pressures_window peaks_loaded (6 / 5) 0 1 = [Val 1]"
    by (simp add: window_eval)
  have sm3: "smoothed_pressures example_scipy peaks_loaded (6 / 5) 0 1 = [Val 1]"
    by (simp add: window_eval)
  have pk3: "peaks example_scipy peaks_loaded (6 / 5) 0 1 = []"
    by (simp add: window_eval)
  have "length (smoothed_pressures example_scipy peaks_loaded (6 / 5) 0 1)
           = length (pressures_window peaks_loaded (6 / 5) 0 1)"
    and "\<forall>k \<in> set (peaks example_scipy peaks_loaded (6 / 5) 0 1).
           k < length (pressures_window peaks_loaded (6 / 5) 0 1)"
    by (simp_all add: sm3 pw3 pk3)
  note w3 = get_peakfound_pressure_window [OF peaks_loaded_rows this,
      THEN conjunct2, THEN conjunct2, THEN conjunct2, unfolded mw3 pw3 sm3 pk3]
  have c: "get_peakfound_pressure example_scipy peaks_loaded (6 / 5) 0 1 = Inr (Some (Val 1, 1))"
    using w3 by simp
  from a b c show ?thesis by blast
qed


section \<open>Relative-ratio extraction\<close>

lemma fdiv_nonzero: "q \<noteq> Val 0 \<Longrightarrow> \<exists>r. fdiv p q = Inr r"
  by (cases p; cases q) auto

lemma ebind_Inl_iff: "ebind m f = Inl e \<longleftrightarrow> m = Inl e \<or> (\<exists>x. m = Inr x \<and> f x = Inl e)"
  by (cases m) auto

lemma getitem_error: "getitem xs i = Inl e \<Longrightarrow> e = IndexError"
  by (simp add: getitem_def split: if_splits)

lemma take_at_error: "take_at xs is = Inl e \<Longrightarrow> e = IndexError"
  by (simp add: take_at_def split: if_splits)

lemma argmin_error: "argmin xs = Inl e \<Longrightarrow> e = ValueError"
  by (simp add: argmin_def split: list.splits)

lemma gpp_no_division_fault:
  "get_peakfound_pressure lib self mass i window \<noteq> Inl ZeroDivisionError"
  unfolding get_peakfound_pressure_def Let_def
  by (auto simp: ebind_Inl_iff dest!: getitem_error take_at_error argmin_error split: if_splits)

lemma ratio_loop_step:
  "ratio_loop lib self mass mass_rel window (i # rest) (rs, ts) =
     (case get_peakfound_pressure lib self mass i window of
        Inl e \<Rightarrow> Inl e
      | Inr r \<Rightarrow>
         (case get_peakfound_pressure lib self mass_rel i window of
            Inl e \<Rightarrow> Inl e
          | Inr r' \<Rightarrow>
             (case ratio_sample lib self mass mass_rel window i of
                None \<Rightarrow> ratio_loop lib self mass mass_rel window rest (rs, ts)
              | Some s \<Rightarrow> ratio_loop lib self mass mass_rel window rest (rs @ [snd s], ts @ [fst s]))))"
proof (cases "get_peakfound_pressure lib self mass i window")
  case (Inl e)
  then show ?thesis by simp
next
  case r: (Inr r)
  show ?thesis
  proof (cases "get_peakfound_pressure lib self mass_rel i window")
    case (Inl e)
    with r show ?thesis by simp
  next
    case r': (Inr r')
    show ?thesis
    proof (cases r)
      case None
      with r r' show ?thesis by (simp add: ratio_sample_def)
    next
      case (Some pm)
      show ?thesis
      proof (cases r')
        case None
        with r r' Some show ?thesis by (cases pm) (simp add: ratio_sample_def)
      next
        case rel: (Some pm')
        obtain p m p_rel m_rel where pm: "pm = (p, m)" "pm' = (p_rel, m_rel)"
          by (cases pm; cases pm') auto
        show ?thesis
        proof (cases "p_rel = Val 0")
          case True
          with r r' Some rel pm show ?thesis by (simp add: ratio_sample_def)
        next
          case False
          from fdiv_nonzero [OF False, of p] obtain q where "fdiv p p_rel = Inr q" ..
          with False r r' Some rel pm show ?thesis by (simp add: ratio_sample_def)
        qed
      qed
    qed
  qed
qed

lemma ratio_loop_spec:
  "ratio_loop lib self mass mass_rel window idxs (rs, ts) = Inr (rs', ts') \<Longrightarrow> length rs = length ts
     \<Longrightarrow> length rs' = length ts'
       \<and> zip ts' rs' = zip ts rs @ List.map_filter (ratio_sample lib self mass mass_rel window) idxs"
proof (induction idxs arbitrary: rs ts)
  case Nil
  then show ?case by (simp add: map_filter_simps)
next
  case (Cons i idxs)
  note step = ratio_loop_step [of lib self mass mass_rel window i idxs rs ts]
  show ?case
  proof (cases "ratio_sample lib self mass mass_rel window i")
    case None
    with Cons.prems(1) step have "ratio_loop lib self mass mass_rel window idxs (rs, ts) = Inr (rs', ts')"
      by (auto split: sum.splits)
    from Cons.IH [OF this Cons.prems(2)] None show ?thesis by (simp add: map_filter_simps)
  next
    case (Some s)
    with Cons.prems(1) step
    have "ratio_loop lib self mass mass_rel window idxs (rs @ [snd s], ts @ [fst s]) = Inr (rs', ts')"
      by (auto split: sum.splits)
    from Cons.IH [OF this] Cons.prems(2) Some show ?thesis by (simp add: map_filter_simps)
  qed
qed

lemma ratio_loop_no_division_fault:
  "ratio_loop lib self mass mass_rel window idxs (rs, ts) \<noteq> Inl ZeroDivisionError"
proof (induction idxs arbitrary: rs ts)
  case Nil
  then show ?case by simp
next
  case (Cons i idxs)
  show ?case
    unfolding ratio_loop_step
    using Cons.IH gpp_no_division_fault [of lib self mass i window]
      gpp_no_division_fault [of lib self mass_rel i window]
    by (auto split: sum.splits option.splits)
qed

lemma ratio_loop_total:
  "\<forall>i \<in> set idxs. (\<exists>r. get_peakfound_pressure lib self mass i window = Inr r)
        \<and> (\<exists>r. get_peakfound_pressure lib self mass_rel i window = Inr r)
   \<Longrightarrow> \<exists>res. ratio_loop lib self mass mass_rel window idxs (rs, ts) = Inr res"
proof (induction idxs arbitrary: rs ts)
  case Nil
  then show ?case by simp
next
  case (Cons i idxs)
  then have IH: "\<And>rs ts. \<exists>res. ratio_loop lib self mass mass_rel window idxs (rs, ts) = Inr res"
    by simp
  from Cons.prems obtain r r' where "get_peakfound_pressure lib self mass i window = Inr r"
    "get_peakfound_pressure lib self mass_rel i window = Inr r'" by auto
  then show ?case
    unfolding ratio_loop_step using IH by (auto split: option.splits)
qed

text \<open>
  Claim C4. Relative-ratio extraction over two masses emits for a scan the sample
  (timestamp, pressure / pressureRel) only when both peak-window results are present and
  the relative pressure is not zero, and skips the scan otherwise. For every object and
  every pair of masses: the method never ends in a division fault; the series it returns
  is, in scan order, the ratio samples of the scans that have one; a scan has a ratio
  sample only with both results present and a relative pressure other than zero; and
  the method returns a series whenever the peak-window lookups themselves do not raise.
\<close>

theorem ratio_guarded:
  "mass_evolution_peakfound_relative lib self mass mass_rel window \<noteq> Inl ZeroDivisionError
   \<and> (\<forall>rs ts. mass_evolution_peakfound_relative lib self mass mass_rel window = Inr (rs, ts) \<longrightarrow>
         length rs = length ts
         \<and> zip ts rs = List.map_filter (ratio_sample lib self mass mass_rel window)
                         [0..<length (times_seq self)])
   \<and> (\<forall>i t q. ratio_sample lib self mass mass_rel window i = Some (t, q) \<longrightarrow>
         (\<exists>p m p_rel m_rel.
            get_peakfound_pressure lib self mass i window = Inr (Some (p, m))
            \<and> get_peakfound_pressure lib self mass_rel i window = Inr (Some (p_rel, m_rel))
            \<and> p_rel \<noteq> Val 0 \<and> fdiv p p_rel = Inr q \<and> t = times_seq self ! i))
   \<and> ((\<forall>i<length (times_seq self).
          (\<exists>r. get_peakfound_pressure lib self mass i window = Inr r)
          \<and> (\<exists>r. get_peakfound_pressure lib self mass_rel i window = Inr r)) \<longrightarrow>
        (\<exists>rs ts. mass_evolution_peakfound_relative lib self mass mass_rel window = Inr (rs, ts)))"
proof -
  have a: "mass_evolution_peakfound_relative lib self mass mass_rel window \<noteq> Inl ZeroDivisionError"
    by (simp add: mass_evolution_peakfound_relative_def ratio_loop_no_division_fault)
  have b: "\<forall>rs ts. mass_evolution_peakfound_relative lib self mass mass_rel window = Inr (rs, ts) \<longrightarrow>
         length rs = length ts
         \<and> zip ts rs = List.map_filter (ratio_sample lib self mass mass_rel window)
                         [0..<length (times_seq self)]"
    using ratio_loop_spec [of lib self mass mass_rel window "[0..<length (times_seq self)]" "[]" "[]"]
    by (simp add: mass_evolution_peakfound_relative_def)
  have c: "\<forall>i t q. ratio_sample lib self mass mass_rel window i = Some (t, q) \<longrightarrow>
         (\<exists>p m p_rel m_rel.
            get_peakfound_pressure lib self mass i window = Inr (Some (p, m))
            \<and> get_peakfound_pressure lib self mass_rel i window = Inr (Some (p_rel, m_rel))
            \<and> p_rel \<noteq> Val 0 \<and> fdiv p p_rel = Inr q \<and> t = times_seq self ! i)"
    by (auto simp: ratio_sample_def split: sum.splits option.splits if_splits)
  have d: "(\<forall>i<length (times_seq self).
          (\<exists>r. get_peakfound_pressure lib self mass i window = Inr r)
          \<and> (\<exists>r. get_peakfound_pressure lib self mass_rel i window = Inr r)) \<longrightarrow>
        (\<exists>rs ts. mass_evolution_peakfound_relative lib self mass mass_rel window = Inr (rs, ts))"
    using ratio_loop_total [of "[0..<length (times_seq self)]" lib self mass window mass_rel "[]" "[]"]
    by (auto simp: mass_evolution_peakfound_relative_def)
  from a b c d show ?thesis by blast
qed



text \<open>
  Mass 2 relative to mass 1, window width 0.5: the second scan, where the relative
  pressure is zero, is skipped; the first and the third give 5 / 1 and 4 / 2.
\<close>

theorem ratio_guarded_witness:
  "mass_evolution_peakfound_relative example_scipy peaks_loaded 2 1 (1 / 2)
     = Inr ([Val 5, Val 2], [(2024, 9, 11, 17, 0, 0), (2024, 9, 13, 17, 0, 0)])
   \<and> List.map_filter (ratio_sample example_scipy peaks_loaded 2 1 (1 / 2))
        [0..<length (times_seq peaks_loaded)]
       = [((2024, 9, 11, 17, 0, 0), Val 5), ((2024, 9, 13, 17, 0, 0), Val 2)]
   \<and> get_peakfound_pressure example_scipy peaks_loaded 1 1 (1 / 2) = Inr (Some (Val 0, 1))"
proof -
  have ev: "mass_evolution_peakfound_relative example_scipy peaks_loaded 2 1 (1 / 2)
     = Inr ([Val 5, Val 2], [(2024, 9, 11, 17, 0, 0), (2024, 9, 13, 17, 0, 0)])"
    by (simp add: mass_evolution_peakfound_relative_def gpp_eval upt_conv_Cons)
  with ratio_guarded [of example_scipy peaks_loaded 2 1 "1 / 2"]
  have "zip [(2024, 9, 11, 17, 0, 0), (2024, 9, 13, 17, 0, 0)] [Val 5, Val 2]
      = List.map_filter (ratio_sample example_scipy peaks_loaded 2 1 (1 / 2))
          [0..<length (times_seq peaks_loaded)]"
    by blast
  moreover have "get_peakfound_pressure example_scipy peaks_loaded 1 1 (1 / 2) = Inr (Some (Val 0, 1))"
    by (simp add: gpp_eval)
  ultimately show ?thesis using ev by simp
qed

section \<open>Interpolation onto the grid\<close>

lemma sorted_Min_hd: "sorted xs \<Longrightarrow> xs \<noteq> [] \<Longrightarrow> Min (set xs) = hd xs"
  by (cases xs) (auto intro!: Min_eqI)

lemma sorted_Max_last:
  fixes xs :: "real list"
  assumes "sorted xs" "xs \<noteq> []"
  shows "Max (set xs) = last xs"
proof (rule Max_eqI)
  show "finite (set xs)" by simp
  show "last xs \<in> set xs" using assms(2) by simp
  fix y assume "y \<in> set xs"
  then obtain i where i: "i < length xs" "xs ! i = y" by (auto simp: in_set_conv_nth)
  with assms have "xs ! i \<le> xs ! (length xs - 1)"
    by (intro sorted_nth_mono) auto
  with i assms(2) show "y \<le> last xs" by (simp add: last_conv_nth)
qed

lemma linear_interp_segment_aux:
  "sorted_wrt (<) (x0 # x1 # rest) \<Longrightarrow> length rest' = length rest \<Longrightarrow> x0 \<le> g
     \<Longrightarrow> g \<le> last (x1 # rest) \<Longrightarrow>
   \<exists>j. Suc j < length (x0 # x1 # rest)
      \<and> (x0 # x1 # rest) ! j \<le> g \<and> g \<le> (x0 # x1 # rest) ! Suc j
      \<and> linear_interp (zip (x0 # x1 # rest) (y0 # y1 # rest')) g
          = (y0 # y1 # rest') ! j
            + (g - (x0 # x1 # rest) ! j)
              * (((y0 # y1 # rest') ! Suc j - (y0 # y1 # rest') ! j)
                 / ((x0 # x1 # rest) ! Suc j - (x0 # x1 # rest) ! j))"
proof (induction rest arbitrary: x0 x1 y0 y1 rest')
  case Nil
  then have "g \<le> x1" by simp
  with Nil have "Suc 0 < length [x0, x1] \<and> [x0, x1] ! 0 \<le> g \<and> g \<le> [x0, x1] ! Suc 0
      \<and> linear_interp (zip [x0, x1] (y0 # y1 # rest')) g
          = (y0 # y1 # rest') ! 0 + (g - [x0, x1] ! 0)
              * (((y0 # y1 # rest') ! Suc 0 - (y0 # y1 # rest') ! 0) / ([x0, x1] ! Suc 0 - [x0, x1] ! 0))"
    by simp
  then show ?case by blast
next
  case (Cons x2 rest)
  from Cons.prems(2) obtain y2 rest'' where r: "rest' = y2 # rest''" "length rest'' = length rest"
    by (cases rest') auto
  show ?case
  proof (cases "g \<le> x1")
    case True
    with Cons.prems(3) have "Suc 0 < length (x0 # x1 # x2 # rest)
      \<and> (x0 # x1 # x2 # rest) ! 0 \<le> g \<and> g \<le> (x0 # x1 # x2 # rest) ! Suc 0
      \<and> linear_interp (zip (x0 # x1 # x2 # rest) (y0 # y1 # rest')) g
          = (y0 # y1 # rest') ! 0 + (g - (x0 # x1 # x2 # rest) ! 0)
              * (((y0 # y1 # rest') ! Suc 0 - (y0 # y1 # rest') ! 0)
                 / ((x0 # x1 # x2 # rest) ! Suc 0 - (x0 # x1 # x2 # rest) ! 0))"
      by simp
    then show ?thesis by blast
  next
    case False
    from Cons.prems(1) have s: "sorted_wrt (<) (x1 # x2 # rest)" by simp
    from False have le: "x1 \<le> g" by simp
    from Cons.prems(4) have la: "g \<le> last (x2 # rest)" by simp
    from Cons.IH [OF s r(2) le la, of y1 y2] obtain j where
      j: "Suc j < length (x1 # x2 # rest)" "(x1 # x2 # rest) ! j \<le> g" "g \<le> (x1 # x2 # rest) ! Suc j"
        "linear_interp (zip (x1 # x2 # rest) (y1 # y2 # rest'')) g
          = (y1 # y2 # rest'') ! j + (g - (x1 # x2 # rest) ! j)
              * (((y1 # y2 # rest'') ! Suc j - (y1 # y2 # rest'') ! j)
                 / ((x1 # x2 # rest) ! Suc j - (x1 # x2 # rest) ! j))"
      by blast
    from False j r have "Suc (Suc j) < length (x0 # x1 # x2 # rest)
      \<and> (x0 # x1 # x2 # rest) ! Suc j \<le> g \<and> g \<le> (x0 # x1 # x2 # rest) ! Suc (Suc j)
      \<and> linear_interp (zip (x0 # x1 # x2 # rest) (y0 # y1 # rest')) g
          = (y0 # y1 # rest') ! Suc j + (g - (x0 # x1 # x2 # rest) ! Suc j)
              * (((y0 # y1 # rest') ! Suc (Suc j) - (y0 # y1 # rest') ! Suc j)
                 / ((x0 # x1 # x2 # rest) ! Suc (Suc j) - (x0 # x1 # x2 # rest) ! Suc j))"
      by simp
    then show ?thesis by blast
  qed
qed

lemma linear_interp_segment:
  assumes "sorted_wrt (<) xs" "length ys = length xs" "2 \<le> length xs" "hd xs \<le> g" "g \<le> last xs"
  shows "\<exists>j. Suc j < length xs \<and> xs ! j \<le> g \<and> g \<le> xs ! Suc j
      \<and> linear_interp (zip xs ys) g
          = ys ! j + (g - xs ! j) * ((ys ! Suc j - ys ! j) / (xs ! Suc j - xs ! j))"
proof -
  from assms(3) obtain x0 x1 rest where xs: "xs = x0 # x1 # rest"
    by (cases xs; cases "tl xs") auto
  with assms(2) obtain y0 y1 rest' where ys: "ys = y0 # y1 # rest'" "length rest' = length rest"
    by (cases ys; cases "tl ys") auto
  from assms(1,4,5) xs have "sorted_wrt (<) (x0 # x1 # rest)" "x0 \<le> g" "g \<le> last (x1 # rest)"
    by simp_all
  from linear_interp_segment_aux [OF this(1) ys(2) this(2,3), of y0 y1]
  show ?thesis unfolding xs ys by blast
qed

lemma interp1d_sorted:
  assumes "sorted_wrt (<) xs" "length ys = length xs" "2 \<le> length xs"
  shows "(g < Min (set xs) \<or> Max (set xs) < g \<longrightarrow> interp1d xs ys g = NaN)
     \<and> (Min (set xs) \<le> g \<and> g \<le> Max (set xs) \<longrightarrow>
          (\<exists>j. Suc j < length xs \<and> xs ! j \<le> g \<and> g \<le> xs ! Suc j
             \<and> interp1d xs ys g
                 = Val (ys ! j + (g - xs ! j) * ((ys ! Suc j - ys ! j) / (xs ! Suc j - xs ! j)))))"
proof -
  from assms(3) have ne: "xs \<noteq> []" by auto
  from assms(1) have srt: "sorted xs" by (rule strict_sorted_imp_sorted)
  have mn: "Min (set xs) = hd xs" and mx: "Max (set xs) = last xs"
    using srt ne by (simp_all add: sorted_Min_hd sorted_Max_last)
  have "sorted (map fst (zip xs ys))" using srt assms(2) by simp
  then have sk: "sort_key fst (zip xs ys) = zip xs ys" by (rule sort_key_id_if_sorted)
  show ?thesis
  proof (intro conjI impI)
    assume "g < Min (set xs) \<or> Max (set xs) < g"
    then show "interp1d xs ys g = NaN" unfolding interp1d_def by (simp only: if_True simp_thms)
  next
    assume in_range: "Min (set xs) \<le> g \<and> g \<le> Max (set xs)"
    then have "hd xs \<le> g" "g \<le> last xs" by (simp_all add: mn mx)
    from linear_interp_segment [OF assms this, of ] obtain j where
      "Suc j < length xs" "xs ! j \<le> g" "g \<le> xs ! Suc j"
      "linear_interp (zip xs ys) g
          = ys ! j + (g - xs ! j) * ((ys ! Suc j - ys ! j) / (xs ! Suc j - xs ! j))"
      by blast
    moreover have "interp1d xs ys g = Val (linear_interp (zip xs ys) g)"
      unfolding interp1d_def sk mn mx using \<open>hd xs \<le> g\<close> \<open>g \<le> last xs\<close> ne by simp
    ultimately show "\<exists>j. Suc j < length xs \<and> xs ! j \<le> g \<and> g \<le> xs ! Suc j
             \<and> interp1d xs ys g
                 = Val (ys ! j + (g - xs ! j) * ((ys ! Suc j - ys ! j) / (xs ! Suc j - xs ! j)))"
      by auto
  qed
qed

lemma process_file_Inr:
  assumes "process_file self grid file = Inr (timestamp, v, label)"
  shows "\<exists>file_data. loadtxt (snd file) = Inr file_data \<and> 2 \<le> length file_data
       \<and> v = map (interp1d (raw_masses file_data) (raw_pressures file_data)) grid"
  using assms unfolding process_file_def Let_def ebind_Inr_iff
  by (auto simp: column_def raw_masses_def raw_pressures_def split: if_splits)

text \<open>
  Claim C7. For a raw scan with strictly increasing masses, the interpolation onto the
  grid gives a vector as long as the grid. An entry whose grid mass lies below the least
  or above the greatest raw mass is the missing-value sentinel. Every other entry is the
  value, at its grid mass, of the line through two neighbouring raw points whose masses
  enclose that grid mass. The interpolation itself is the model of \<^verbatim>\<open>interp1d\<close>
  above; the theorem is about the result \<^verbatim>\<open>load_data\<close> computes for one file.
\<close>

theorem process_file_interpolates:
  assumes "process_file self grid file = Inr (timestamp, v, label)"
    and "loadtxt (snd file) = Inr file_data"
    and "sorted_wrt (<) (raw_masses file_data)"
  shows "length v = length grid
     \<and> (\<forall>i<length grid.
          (grid ! i < Min (set (raw_masses file_data)) \<or> Max (set (raw_masses file_data)) < grid ! i
             \<longrightarrow> v ! i = NaN)
        \<and> (Min (set (raw_masses file_data)) \<le> grid ! i \<and> grid ! i \<le> Max (set (raw_masses file_data))
             \<longrightarrow> (\<exists>j. Suc j < length file_data
                    \<and> raw_masses file_data ! j \<le> grid ! i \<and> grid ! i \<le> raw_masses file_data ! Suc j
                    \<and> v ! i = Val (raw_pressures file_data ! j
                                   + (grid ! i - raw_masses file_data ! j)
                                     * ((raw_pressures file_data ! Suc j - raw_pressures file_data ! j)
                                        / (raw_masses file_data ! Suc j - raw_masses file_data ! j))))))"
proof -
  from process_file_Inr [OF assms(1)] assms(2) have
    len: "2 \<le> length file_data" and
    v: "v = map (interp1d (raw_masses file_data) (raw_pressures file_data)) grid"
    by auto
  have l: "length (raw_pressures file_data) = length (raw_masses file_data)"
    "2 \<le> length (raw_masses file_data)" "length (raw_masses file_data) = length file_data"
    using len by (simp_all add: raw_masses_def raw_pressures_def)
  note I = interp1d_sorted [OF assms(3) l(1,2)]
  show ?thesis
  proof (intro conjI allI impI)
    show "length v = length grid" by (simp add: v)
  next
    fix i assume "i < length grid"
      and "grid ! i < Min (set (raw_masses file_data)) \<or> Max (set (raw_masses file_data)) < grid ! i"
    with I [of "grid ! i"] show "v ! i = NaN" by (simp add: v)
  next
    fix i assume i: "i < length grid"
      and "Min (set (raw_masses file_data)) \<le> grid ! i \<and> grid ! i \<le> Max (set (raw_masses file_data))"
    with I [of "grid ! i"] obtain j where
      "Suc j < length (raw_masses file_data)"
      "raw_masses file_data ! j \<le> grid ! i" "grid ! i \<le> raw_masses file_data ! Suc j"
      "interp1d (raw_masses file_data) (raw_pressures file_data) (grid ! i)
         = Val (raw_pressures file_data ! j
                                   + (grid ! i - raw_masses file_data ! j)
                                     * ((raw_pressures file_data ! Suc j - raw_pressures file_data ! j)
                                        / (raw_masses file_data ! Suc j - raw_masses file_data ! j)))"
      by blast
    with i l(3) show "\<exists>j. Suc j < length file_data
                    \<and> raw_masses file_data ! j \<le> grid ! i \<and> grid ! i \<le> raw_masses file_data ! Suc j
                    \<and> v ! i = Val (raw_pressures file_data ! j
                                   + (grid ! i - raw_masses file_data ! j)
                                     * ((raw_pressures file_data ! Suc j - raw_pressures file_data ! j)
                                        / (raw_masses file_data ! Suc j - raw_masses file_data ! j)))"
      by (auto simp: v)
  qed
qed


text \<open>
  The file with the raw points (1, 4) and (3, 8) on the grid 1, 2, 3, 4: the values 4, 6
  and 8, and the sentinel at 4, which is beyond the last raw mass.
\<close>

theorem process_file_interpolates_witness:
  "process_file (init example_directory) [1, 2, 3, 4]
       (''analog_scan_20240911_170000.dat'', [[Some 1, Some 4], [Some 3, Some 8]])
     = Inr ((2024, 9, 11, 17, 0, 0), [Val 4, Val 6, Val 8, NaN], Some ''control_run'')
   \<and> length [Val 4, Val 6, Val 8, NaN] = length [1, 2, 3, 4 :: real]
   \<and> [Val 4, Val 6, Val 8, NaN] ! 3 = NaN"
proof -
  let ?file = "(''analog_scan_20240911_170000.dat'', [[Some 1, Some 4], [Some 3, Some 8]])"
  have pf: "process_file (init example_directory) [1, 2, 3, 4] ?file
     = Inr ((2024, 9, 11, 17, 0, 0), [Val 4, Val 6, Val 8, NaN], Some ''control_run'')"
    by (simp add: file_eval strptime_eval)
  have lt: "loadtxt (snd ?file) = Inr [[1, 4], [3, 8]]"
    by (simp add: loadtxt_def)
  have srt: "sorted_wrt (<) (raw_masses [[1, 4], [3, 8]])"
    by (simp add: raw_masses_def)
  note w = process_file_interpolates [OF pf lt srt]
  from w have "length [Val 4, Val 6, Val 8, NaN] = length [1, 2, 3, 4 :: real]" by blast
  moreover have "Max (set (raw_masses [[1, 4], [3, 8]])) < [1, 2, 3, 4] ! 3"
    by (simp add: raw_masses_def)
  with w have "[Val 4, Val 6, Val 8, NaN] ! 3 = NaN" by simp
  ultimately show ?thesis using pf by blast
qed

section \<open>The missing-value sentinel in extraction\<close>

lemma argmin_Inr:
  assumes "argmin xs = Inr k"
  shows "k < length xs \<and> (\<forall>j<length xs. xs ! k \<le> xs ! j) \<and> (\<forall>j<k. xs ! k < xs ! j)"
proof -
  from assms have "xs \<noteq> []" by (auto simp: argmin_def)
  from argmin_spec [OF this] assms show ?thesis by auto
qed

lemma map_filter_member: "x \<in> set xs \<Longrightarrow> f x = Some y \<Longrightarrow> y \<in> set (List.map_filter f xs)"
  by (force simp: map_filter_def)

lemma nearest_keeps_stored_value:
  assumes "well_formed self" and "argmin (deviations self mass) = Inr k"
    and "abs (masses self ! k - mass) \<le> mass_exclusion"
  shows "get_mass_evolution self mass
           = Inr (map (\<lambda>row. row ! k) (interpolated_data self), times_seq self)"
proof -
  from argmin_Inr [OF assms(2)] have k: "k < length (masses self)" by (simp add: deviations_def)
  from assms(3) have within: "\<not> abs (masses self ! k - mass) > mass_exclusion" by simp
  have "mass_evolution_loop self mass (enumerate 0 (interpolated_data self)) ([], [])
       = Inr ([] @ map (\<lambda>row. row ! k) (interpolated_data self),
              [] @ take (length (interpolated_data self)) (drop 0 (times_seq self)))"
    using assms(1) k by (intro mass_evolution_loop_within [OF assms(2) within]) (auto simp: well_formed_def)
  with assms(1) show ?thesis by (simp add: get_mass_evolution_def well_formed_def)
qed

lemma fallback_returns_raw_value:
  assumes "scan_index < length (interpolated_data self)"
    and "length (interpolated_data self ! scan_index) = length (masses self)"
    and "peaks lib self mass scan_index window = []"
    and "argmin (map (\<lambda>m. abs (m - mass)) (masses_window self mass window)) = Inr idx"
  shows "get_peakfound_pressure lib self mass scan_index window
           = Inr (Some (pressures_window self mass scan_index window ! idx,
                        masses_window self mass window ! idx))"
proof -
  let ?mw = "masses_window self mass window"
  let ?pw = "pressures_window self mass scan_index window"
  have len: "length ?pw = length ?mw"
    using assms(2) unfolding masses_window_def pressures_window_def
    by (intro length_select) (simp_all add: window_mask_def)
  from argmin_Inr [OF assms(4)] have idx: "idx < length ?mw" by simp
  then have "?mw \<noteq> []" by auto
  with assms(3,4) idx len show ?thesis
    by (simp add: gpp_unfold [OF assms(1,2)] getitem_def)
qed

lemma ratio_sample_sentinel:
  assumes "get_peakfound_pressure lib self mass i window = Inr (Some (p, m))"
    and "get_peakfound_pressure lib self mass_rel i window = Inr (Some (p_rel, m_rel))"
    and "p = NaN \<and> p_rel \<noteq> Val 0 \<or> p_rel = NaN"
  shows "ratio_sample lib self mass mass_rel window i = Some (times_seq self ! i, NaN)"
  using assms by (cases p; cases p_rel) (auto simp: ratio_sample_def)

text \<open>
  Claim C2, amended. No extraction mode tests for the missing-value sentinel, and the
  sentinel does not cause a scan to be skipped; each mode emits it.
  \<^item> Nearest-point extraction: when the grid mass at the index \<^verbatim>\<open>argmin\<close> selects is
    within the tolerance, every scan gives a sample, whose pressure is the value the scan
    holds at that index, the sentinel included.
  \<^item> Peak-window extraction: when the peak search finds no peak, the result is the raw
    pressure at the window position \<^verbatim>\<open>argmin\<close> selects; where the scan holds the
    sentinel there, the result is the sentinel, with the grid mass.
  \<^item> Relative-ratio extraction: the guard tests the relative pressure against the number
    zero only. When both peak-window results are present and the relative pressure is the
    sentinel, or the pressure is the sentinel and the relative pressure is not zero, the
    scan's sample is the sentinel, and it is in the series the method returns.
\<close>

theorem extraction_emits_sentinel:
  "(well_formed self \<and> argmin (deviations self mass) = Inr k
      \<and> abs (masses self ! k - mass) \<le> mass_exclusion
     \<longrightarrow> get_mass_evolution self mass
           = Inr (map (\<lambda>row. row ! k) (interpolated_data self), times_seq self))
   \<and> (scan_index < length (interpolated_data self)
      \<and> length (interpolated_data self ! scan_index) = length (masses self)
      \<and> peaks lib self mass scan_index window = []
      \<and> argmin (map (\<lambda>m. abs (m - mass)) (masses_window self mass window)) = Inr idx
      \<and> pressures_window self mass scan_index window ! idx = NaN
     \<longrightarrow> get_peakfound_pressure lib self mass scan_index window
           = Inr (Some (NaN, masses_window self mass window ! idx)))
   \<and> (get_peakfound_pressure lib self mass i window = Inr (Some (p, m))
      \<and> get_peakfound_pressure lib self mass_rel i window = Inr (Some (p_rel, m_rel))
      \<and> (p = NaN \<and> p_rel \<noteq> Val 0 \<or> p_rel = NaN)
      \<and> i < length (times_seq self)
      \<and> mass_evolution_peakfound_relative lib self mass mass_rel window = Inr (rs, ts)
     \<longrightarrow> ratio_sample lib self mass mass_rel window i = Some (times_seq self ! i, NaN)
         \<and> (times_seq self ! i, NaN) \<in> set (zip ts rs))"
proof (intro conjI impI)
  assume "well_formed self \<and> argmin (deviations self mass) = Inr k
      \<and> abs (masses self ! k - mass) \<le> mass_exclusion"
  then show "get_mass_evolution self mass
           = Inr (map (\<lambda>row. row ! k) (interpolated_data self), times_seq self)"
    by (simp add: nearest_keeps_stored_value)
next
  assume a: "scan_index < length (interpolated_data self)
      \<and> length (interpolated_data self ! scan_index) = length (masses self)
      \<and> peaks lib self mass scan_index window = []
      \<and> argmin (map (\<lambda>m. abs (m - mass)) (masses_window self mass window)) = Inr idx
      \<and> pressures_window self mass scan_index window ! idx = NaN"
  then have "get_peakfound_pressure lib self mass scan_index window
           = Inr (Some (pressures_window self mass scan_index window ! idx,
                        masses_window self mass window ! idx))"
    by (intro fallback_returns_raw_value) simp_all
  with a show "get_peakfound_pressure lib self mass scan_index window
           = Inr (Some (NaN, masses_window self mass window ! idx))"
    by simp
next
  assume a: "get_peakfound_pressure lib self mass i window = Inr (Some (p, m))
      \<and> get_peakfound_pressure lib self mass_rel i window = Inr (Some (p_rel, m_rel))
      \<and> (p = NaN \<and> p_rel \<noteq> Val 0 \<or> p_rel = NaN)
      \<and> i < length (times_seq self)
      \<and> mass_evolution_peakfound_relative lib self mass mass_rel window = Inr (rs, ts)"
  then show s: "ratio_sample lib self mass mass_rel window i = Some (times_seq self ! i, NaN)"
    by (intro ratio_sample_sentinel [of lib self mass i window p m mass_rel p_rel m_rel]) simp_all
  from a have "zip ts rs = List.map_filter (ratio_sample lib self mass mass_rel window)
                         [0..<length (times_seq self)]"
    using ratio_loop_spec [of lib self mass mass_rel window "[0..<length (times_seq self)]" "[]" "[]" rs ts]
    by (simp add: mass_evolution_peakfound_relative_def)
  moreover from a have "i \<in> set [0..<length (times_seq self)]" by simp
  ultimately show "(times_seq self ! i, NaN) \<in> set (zip ts rs)"
    using s by (simp only: map_filter_member)
qed

text \<open>
  On the loaded example the target 4.5 selects the grid mass 4, where both scans hold the
  sentinel. On the third scan of the object with peaks, which holds the sentinel from
  mass 3 on, the window of width 0.5 around mass 3 gives the sentinel, and the ratio of
  mass 2 to mass 3 is the sentinel and is emitted.
\<close>

theorem extraction_emits_sentinel_witness:
  "get_mass_evolution example_loaded (9 / 2)
     = Inr ([NaN, NaN], [(2024, 9, 11, 17, 0, 0), (2024, 9, 20, 9, 0, 0)])
   \<and> get_peakfound_pressure example_scipy peaks_loaded 3 2 (1 / 2) = Inr (Some (NaN, 3))
   \<and> mass_evolution_peakfound_relative example_scipy peaks_loaded 2 3 (1 / 2)
       = Inr ([Val (5 / 2), NaN], [(2024, 9, 11, 17, 0, 0), (2024, 9, 13, 17, 0, 0)])
   \<and> ((2024, 9, 13, 17, 0, 0), NaN)
       \<in> set (zip [(2024, 9, 11, 17, 0, 0), (2024, 9, 13, 17, 0, 0)] [Val (5 / 2), NaN])"
proof -
  note wa = extraction_emits_sentinel [where self = example_loaded and mass = "9 / 2" and k = 3,
      THEN conjunct1]
  note wb = extraction_emits_sentinel [where self = peaks_loaded and lib = example_scipy
      and mass = 3 and scan_index = 2 and window = "1 / 2" and idx = 0,
      THEN conjunct2, THEN conjunct1]
  note wc = extraction_emits_sentinel [where self = peaks_loaded and lib = example_scipy
      and mass = 2 and mass_rel = 3 and window = "1 / 2" and i = 2
      and p = "Val 4" and m = 2 and p_rel = NaN and m_rel = 3
      and rs = "[Val (5 / 2), NaN]"
      and ts = "[(2024, 9, 11, 17, 0, 0), (2024, 9, 13, 17, 0, 0)]",
      THEN conjunct2, THEN conjunct2]
  have a1: "well_formed example_loaded" using well_formed_example by simp
  have a2: "argmin (deviations example_loaded (9 / 2)) = Inr 3"
    by (simp add: deviations_def example_loaded_def argmin_def)
  have a3: "abs (masses example_loaded ! 3 - 9 / 2) \<le> mass_exclusion"
    by (simp add: example_loaded_def mass_exclusion_def)
  from wa a1 a2 a3 have "get_mass_evolution example_loaded (9 / 2)
      = Inr (map (\<lambda>row. row ! 3) (interpolated_data example_loaded), times_seq example_loaded)"
    by blast
  then have A: "get_mass_evolution example_loaded (9 / 2)
     = Inr ([NaN, NaN], [(2024, 9, 11, 17, 0, 0), (2024, 9, 20, 9, 0, 0)])"
    by (simp add: example_loaded_def)
  have b1: "2 < length (interpolated_data peaks_loaded)"
    "length (interpolated_data peaks_loaded ! 2) = length (masses peaks_loaded)"
    by (simp_all add: peaks_loaded_def)
  have b2: "peaks example_scipy peaks_loaded 3 2 (1 / 2) = []"
    by (simp add: window_eval)
  have mw: "masses_window peaks_loaded 3 (1 / 2) = [3]"
    by (simp add: window_eval)
  have b3: "argmin (map (\<lambda>m. abs (m - 3)) (masses_window peaks_loaded 3 (1 / 2))) = Inr 0"
    by (simp add: mw argmin_def)
  have b4: "pressures_window peaks_loaded 3 2 (1 / 2) ! 0 = NaN"
    by (simp add: window_eval)
  from wb b1 b2 b3 b4 have "get_peakfound_pressure example_scipy peaks_loaded 3 2 (1 / 2)
      = Inr (Some (NaN, masses_window peaks_loaded 3 (1 / 2) ! 0))"
    by blast
  then have B: "get_peakfound_pressure example_scipy peaks_loaded 3 2 (1 / 2) = Inr (Some (NaN, 3))"
    by (simp add: mw)
  have c1: "get_peakfound_pressure example_scipy peaks_loaded 2 2 (1 / 2) = Inr (Some (Val 4, 2))"
    by (simp add: gpp_eval)
  have c2: "2 < length (times_seq peaks_loaded)" by (simp add: peaks_loaded_def)
  have C: "mass_evolution_peakfound_relative example_scipy peaks_loaded 2 3 (1 / 2)
       = Inr ([Val (5 / 2), NaN], [(2024, 9, 11, 17, 0, 0), (2024, 9, 13, 17, 0, 0)])"
    by (simp add: mass_evolution_peakfound_relative_def gpp_eval upt_conv_Cons)
  from wc c1 B c2 C have "(times_seq peaks_loaded ! 2, NaN)
       \<in> set (zip [(2024, 9, 11, 17, 0, 0), (2024, 9, 13, 17, 0, 0)] [Val (5 / 2), NaN])"
    by blast
  then have D: "((2024, 9, 13, 17, 0, 0), NaN)
       \<in> set (zip [(2024, 9, 11, 17, 0, 0), (2024, 9, 13, 17, 0, 0)] [Val (5 / 2), NaN])"
    by (simp add: peaks_loaded_def)
  from A B C D show ?thesis by blast
qed

end
